theory Spec2Isabelle
  imports Main
begin

section \<open>Python values shared by the collectors and the run coordinator\<close>

text \<open>
  An instance of Python's \<^verbatim>\<open>Exception\<close>, carrying the text that \<^verbatim>\<open>str(e)\<close> returns.
  Every \<^verbatim>\<open>except Exception\<close> of the sources catches exactly these values; exceptions
  outside that class (cancellation, interpreter exit) are not modelled.
\<close>

datatype exn = Raised string

fun str_of :: "exn \<Rightarrow> string" where
  "str_of (Raised m) = m"

text \<open>A \<^verbatim>\<open>datetime\<close>, as a number of seconds.\<close>

type_synonym datetime = nat

text \<open>Python's \<^verbatim>\<open>xs[:n]\<close>: a negative bound counts from the end of the list.\<close>

definition py_slice_to :: "'a list \<Rightarrow> int \<Rightarrow> 'a list" where
  "py_slice_to xs n =
     (if 0 \<le> n then take (nat n) xs else take (length xs - nat (- n)) xs)"

section \<open>Data model: app/schemas/entity.py and app/models/entity.py\<close>

text \<open>\<^verbatim>\<open>ContentBase\<close> and \<^verbatim>\<open>ContentCreate\<close> (pydantic models).\<close>

record content_base =
  content_type :: string
  title :: string
  description :: "string option"
  content_body :: "string option"
  content_url :: "string option"
  thumbnail_url :: "string option"
  source_platform :: "string option"
  source_url :: "string option"
  tags :: "string list option"
  categories :: "string list option"
  language :: "string option"
  license :: "string option"

record content_create = content_base +
  agent_id_external :: string

text \<open>
  A row of table \<^verbatim>\<open>agents\<close>: the primary key \<^verbatim>\<open>id\<close>, the unique external
  \<^verbatim>\<open>agent_id\<close>, \<^verbatim>\<open>name\<close> and the nullable counter \<^verbatim>\<open>total_creations\<close> (column default 0).
  The remaining columns are nullable or defaulted and never touched by the ingestion path.
\<close>

record agent =
  agent_pk :: nat
  agent_id :: string
  agent_name :: string
  total_creations :: "int option"

text \<open>
  A row of table \<^verbatim>\<open>agent_contents\<close>: the columns of \<^verbatim>\<open>ContentBase\<close> and the foreign key
  \<^verbatim>\<open>agent_id\<close> to \<^verbatim>\<open>agents.id\<close>. Its own primary key and the engagement counters are
  filled by the database with their defaults and never read by the ingestion path.
\<close>

record agent_content = content_base +
  agent_fk :: nat

text \<open>
  \<^verbatim>\<open>content.model_dump(exclude={"agent_id_external"})\<close> followed by
  \<^verbatim>\<open>content_data["agent_id"] = agent.id\<close> and \<^verbatim>\<open>AgentContent(**content_data)\<close>.
\<close>

definition new_agent_content :: "content_create \<Rightarrow> nat \<Rightarrow> agent_content" where
  "new_agent_content c aid =
     \<lparr> content_type = content_type c, title = title c, description = description c,
       content_body = content_body c, content_url = content_url c,
       thumbnail_url = thumbnail_url c, source_platform = source_platform c,
       source_url = source_url c, tags = tags c, categories = categories c,
       language = language c, license = license c, agent_fk = aid \<rparr>"

section \<open>The persistence interface: an SQLAlchemy session over the catalog\<close>

record store =
  agents :: "agent list"
  contents :: "agent_content list"

text \<open>
  The session that \<^verbatim>\<open>async_session_maker()\<close> opens on the catalog. \<open>committed\<close> is the
  durable catalog, \<open>txn\<close> the rows the current transaction sees in its queries, \<open>pending\<close>
  the content rows passed to \<^verbatim>\<open>add\<close> and not flushed yet. The module that configures
  the session maker is not part of the sources, so whether the session flushes before each
  query is the parameter \<open>autoflush\<close>. \<open>commit_fault\<close> and \<open>rollback_fault\<close> are the
  exceptions, if any, that the database raises on \<^verbatim>\<open>commit()\<close> and \<^verbatim>\<open>rollback()\<close>.
\<close>

record session =
  committed :: store
  txn :: store
  pending :: "agent_content list"
  autoflush :: bool
  commit_fault :: "exn option"
  rollback_fault :: "exn option"

definition open_session :: "bool \<Rightarrow> exn option \<Rightarrow> exn option \<Rightarrow> store \<Rightarrow> session" where
  "open_session af cf rf db =
     \<lparr> committed = db, txn = db, pending = [], autoflush = af,
       commit_fault = cf, rollback_fault = rf \<rparr>"

definition db_flush :: "session \<Rightarrow> session" where
  "db_flush s =
     s\<lparr> txn := (txn s)\<lparr> contents := contents (txn s) @ pending s \<rparr>, pending := [] \<rparr>"

text \<open>What \<^verbatim>\<open>execute\<close> does before it runs a query.\<close>

definition before_query :: "session \<Rightarrow> session" where
  "before_query s = (if autoflush s then db_flush s else s)"

definition db_add :: "agent_content \<Rightarrow> session \<Rightarrow> session" where
  "db_add row s = s\<lparr> pending := pending s @ [row] \<rparr>"

text \<open>The content rows of the current unit of work, flushed or not.\<close>

definition visible_contents :: "session \<Rightarrow> agent_content list" where
  "visible_contents s = contents (txn s) @ pending s"

definition db_commit :: "session \<Rightarrow> (exn + unit) \<times> session" where
  "db_commit s =
     (case commit_fault s of
        Some e \<Rightarrow> (Inl e, s)
      | None \<Rightarrow> (let s' = db_flush s in (Inr (), s'\<lparr> committed := txn s' \<rparr>)))"

definition db_rollback :: "session \<Rightarrow> (exn + unit) \<times> session" where
  "db_rollback s =
     (case rollback_fault s of
        Some e \<Rightarrow> (Inl e, s)
      | None \<Rightarrow> (Inr (), s\<lparr> txn := committed s, pending := [] \<rparr>))"

text \<open>\<^verbatim>\<open>Result.scalar_one_or_none()\<close>: more than one matching row is an exception.\<close>

definition MultipleResultsFound :: exn where
  "MultipleResultsFound = Raised ''Multiple rows were found when one or none was required''"

fun scalar_one_or_none :: "'a list \<Rightarrow> exn + 'a option" where
  "scalar_one_or_none [] = Inr None"
| "scalar_one_or_none [x] = Inr (Some x)"
| "scalar_one_or_none (x # y # zs) = Inl MultipleResultsFound"

text \<open>The primary key the database gives to a new row of \<^verbatim>\<open>agents\<close>.\<close>

definition fresh_pk :: "agent list \<Rightarrow> nat" where
  "fresh_pk rows = Suc (fold max (map agent_pk rows) 0)"

section \<open>The catalog writer and the run coordinator: app/indexers/base.py\<close>

record stats =
  indexed :: nat
  skipped :: nat
  errors :: nat

definition init_stats :: stats where
  "init_stats = \<lparr> indexed = 0, skipped = 0, errors = 0 \<rparr>"

text \<open>
  \<^verbatim>\<open>get_or_create_agent\<close>: select by \<^verbatim>\<open>agent_id\<close>; when there is no row, add one and
  flush. The result is the exception of the query, or the agent row.
\<close>

definition get_or_create_agent :: "string \<Rightarrow> string \<Rightarrow> session \<Rightarrow> (exn + agent) \<times> session" where
  "get_or_create_agent aid nm s =
     (let s1 = before_query s in
      case scalar_one_or_none (filter (\<lambda>a. agent_id a = aid) (agents (txn s1))) of
        Inl e \<Rightarrow> (Inl e, s1)
      | Inr (Some a) \<Rightarrow> (Inr a, s1)
      | Inr None \<Rightarrow>
          (let a = \<lparr> agent_pk = fresh_pk (agents (txn s1)), agent_id = aid,
                     agent_name = nm, total_creations = Some 0 \<rparr>;
               s2 = s1\<lparr> txn := (txn s1)\<lparr> agents := agents (txn s1) @ [a] \<rparr> \<rparr>
           in (Inr a, db_flush s2)))"

text \<open>\<^verbatim>\<open>content_exists\<close>: select the content rows with this \<^verbatim>\<open>source_url\<close>.\<close>

definition content_exists :: "string \<Rightarrow> session \<Rightarrow> (exn + bool) \<times> session" where
  "content_exists url s =
     (let s1 = before_query s in
      case scalar_one_or_none (filter (\<lambda>c. source_url c = Some url) (contents (txn s1))) of
        Inl e \<Rightarrow> (Inl e, s1)
      | Inr r \<Rightarrow> (Inr (r \<noteq> None), s1))"

text \<open>\<^verbatim>\<open>(agent.total_creations or 0) + 1\<close>, stored on the agent object, that is on its row.\<close>

definition bump_total_creations :: "agent \<Rightarrow> session \<Rightarrow> session" where
  "bump_total_creations a s =
     (let n = (case total_creations a of None \<Rightarrow> 0 | Some k \<Rightarrow> k) + 1 in
      s\<lparr> txn := (txn s)\<lparr> agents :=
            map (\<lambda>r. if agent_pk r = agent_pk a then r\<lparr> total_creations := Some n \<rparr> else r)
                (agents (txn s)) \<rparr> \<rparr>)"

text \<open>
  The duplicate test of \<^verbatim>\<open>index_content\<close>:
  \<^verbatim>\<open>content.source_url and await self.content_exists(content.source_url)\<close>. A missing or
  empty \<^verbatim>\<open>source_url\<close> is falsy and the query is not made.
\<close>

definition duplicate_check :: "content_create \<Rightarrow> session \<Rightarrow> (exn + bool) \<times> session" where
  "duplicate_check c s =
     (case source_url c of
        None \<Rightarrow> (Inr False, s)
      | Some u \<Rightarrow> if u = [] then (Inr False, s) else content_exists u s)"

text \<open>
  \<^verbatim>\<open>index_content\<close>. The whole body is inside \<^verbatim>\<open>try ... except Exception\<close>, so the
  function never raises: an exception of a query counts one error. The result is the row
  it returns (or \<^verbatim>\<open>None\<close>), the counters and the session.
\<close>

definition index_content ::
  "content_create \<Rightarrow> stats \<Rightarrow> session \<Rightarrow> agent_content option \<times> stats \<times> session" where
  "index_content c st s =
     (case duplicate_check c s of
        (Inl e, s1) \<Rightarrow> (None, st\<lparr> errors := errors st + 1 \<rparr>, s1)
      | (Inr True, s1) \<Rightarrow> (None, st\<lparr> skipped := skipped st + 1 \<rparr>, s1)
      | (Inr False, s1) \<Rightarrow>
          (case get_or_create_agent (agent_id_external c) (agent_id_external c) s1 of
             (Inl e, s2) \<Rightarrow> (None, st\<lparr> errors := errors st + 1 \<rparr>, s2)
           | (Inr a, s2) \<Rightarrow>
               (let row = new_agent_content c (agent_pk a);
                    s3 = db_add row s2;
                    s4 = bump_total_creations a s3
                in (Some row, st\<lparr> indexed := indexed st + 1 \<rparr>, s4))))"

text \<open>
  A collector: the two abstract methods of \<^verbatim>\<open>BaseIndexer\<close>. Each may raise; \<^verbatim>\<open>parse_content\<close>
  returns \<^verbatim>\<open>None\<close> for a record it drops.
\<close>

record 'raw indexer =
  fetch_content :: "datetime option \<Rightarrow> int \<Rightarrow> exn + 'raw list"
  parse_content :: "'raw \<Rightarrow> exn + content_create option"

text \<open>The body of the \<^verbatim>\<open>for raw_item in raw_items\<close> loop of \<^verbatim>\<open>run\<close>, with its own \<^verbatim>\<open>try\<close>.\<close>

definition process_item :: "'raw indexer \<Rightarrow> 'raw \<Rightarrow> stats \<times> session \<Rightarrow> stats \<times> session" where
  "process_item idx raw p =
     (case p of (st, s) \<Rightarrow>
        (case parse_content idx raw of
           Inl e \<Rightarrow> (st\<lparr> errors := errors st + 1 \<rparr>, s)
         | Inr None \<Rightarrow> (st, s)
         | Inr (Some c) \<Rightarrow> (case index_content c st s of (r, st', s') \<Rightarrow> (st', s'))))"

fun process_items :: "'raw indexer \<Rightarrow> 'raw list \<Rightarrow> stats \<times> session \<Rightarrow> stats \<times> session" where
  "process_items idx [] p = p"
| "process_items idx (raw # raws) p = process_items idx raws (process_item idx raw p)"

text \<open>
  The outer \<^verbatim>\<open>except Exception\<close> of \<^verbatim>\<open>run\<close>: roll back, then fall through to
  \<^verbatim>\<open>return self.stats\<close>. Only an exception of \<^verbatim>\<open>rollback()\<close> itself leaves \<^verbatim>\<open>run\<close>.
\<close>

definition run_failed :: "stats \<Rightarrow> session \<Rightarrow> (exn + stats) \<times> session" where
  "run_failed st s =
     (case db_rollback s of
        (Inl e, s') \<Rightarrow> (Inl e, s')
      | (Inr u, s') \<Rightarrow> (Inr st, s'))"

text \<open>\<^verbatim>\<open>BaseIndexer.run\<close>, started with the counters \<^verbatim>\<open>self.stats\<close> and the session \<^verbatim>\<open>self.db\<close>.\<close>

definition run ::
  "'raw indexer \<Rightarrow> datetime option \<Rightarrow> int \<Rightarrow> stats \<Rightarrow> session \<Rightarrow> (exn + stats) \<times> session" where
  "run idx since limit st s =
     (case fetch_content idx since limit of
        Inl e \<Rightarrow> run_failed st s
      | Inr raw_items \<Rightarrow>
          (case process_items idx raw_items (st, s) of (st1, s1) \<Rightarrow>
             (case db_commit s1 of
                (Inl e, s2) \<Rightarrow> run_failed st1 s2
              | (Inr u, s2) \<Rightarrow> (Inr st1, s2))))"

section \<open>The scheduler: app/services/scheduler.py\<close>

text \<open>
  What \<^verbatim>\<open>run_indexer\<close> returns: the statistics, or the dictionary \<^verbatim>\<open>{"error": ...}\<close>.
\<close>

datatype run_result = Stats stats | Error string

text \<open>
  The surroundings of one platform's run: the collector that \<^verbatim>\<open>get_indexer\<close> builds for
  it, the exception (if any) raised while the session is opened, before the \<^verbatim>\<open>try\<close> of
  \<^verbatim>\<open>run_indexer\<close>, the faults of the session and the reading of \<^verbatim>\<open>datetime.utcnow()\<close>.
\<close>

record 'raw platform_env =
  collector :: "'raw indexer"
  session_fault :: "exn option"
  env_commit_fault :: "exn option"
  env_rollback_fault :: "exn option"
  utcnow :: datetime

text \<open>
  The state the scheduler works on: its dictionary \<^verbatim>\<open>last_run\<close> (the watermarks) and the
  catalog.
\<close>

record world =
  last_run :: "string \<rightharpoonup> datetime"
  database :: store

definition known_platforms :: "string list" where
  "known_platforms =
     [''github'', ''huggingface'', ''civitai'', ''youtube'', ''reddit'', ''arxiv'',
      ''dynamic'', ''moltbook'', ''websearch'']"

definition get_indexer :: "(string \<Rightarrow> 'raw platform_env) \<Rightarrow> string \<Rightarrow> 'raw indexer option" where
  "get_indexer envs platform =
     (if platform \<in> set known_platforms then Some (collector (envs platform)) else None)"

text \<open>
  \<^verbatim>\<open>run_indexer\<close>. \<open>Inl\<close> is an exception that leaves the function. The session is closed
  when the \<^verbatim>\<open>async with\<close> block is left, so the catalog afterwards is what was committed.
\<close>

definition run_indexer ::
  "bool \<Rightarrow> (string \<Rightarrow> 'raw platform_env) \<Rightarrow> string \<Rightarrow> int \<Rightarrow> world \<Rightarrow> (exn + run_result) \<times> world" where
  "run_indexer af envs platform limit w =
     (let env = envs platform in
      case session_fault env of
        Some e \<Rightarrow> (Inl e, w)
      | None \<Rightarrow>
          (let db = open_session af (env_commit_fault env) (env_rollback_fault env) (database w) in
           case get_indexer envs platform of
             None \<Rightarrow> (Inr (Error (''Unknown platform: '' @ platform)), w)
           | Some idx \<Rightarrow>
               (case run idx (last_run w platform) limit init_stats db of
                  (Inr st, db') \<Rightarrow>
                    (Inr (Stats st),
                     w\<lparr> last_run := (last_run w)(platform \<mapsto> utcnow env),
                        database := committed db' \<rparr>)
                | (Inl e, db') \<Rightarrow>
                    (Inr (Error (str_of e)), w\<lparr> database := committed db' \<rparr>))))"

text \<open>What \<^verbatim>\<open>run_all_indexers\<close> does besides running collectors: \<^verbatim>\<open>asyncio.sleep\<close>.\<close>

datatype event = Ran string | Slept nat

definition all_platforms :: "string list" where
  "all_platforms =
     [''websearch'', ''dynamic'', ''github'', ''huggingface'', ''civitai'', ''reddit'', ''arxiv'']"

text \<open>
  The loop of \<^verbatim>\<open>run_all_indexers\<close> over the remaining platforms; the state is the
  dictionary \<^verbatim>\<open>results\<close>, the log of events and the world.
\<close>

fun run_all_loop ::
  "bool \<Rightarrow> (string \<Rightarrow> 'raw platform_env) \<Rightarrow> int \<Rightarrow> string list \<Rightarrow>
   (string \<rightharpoonup> run_result) \<times> event list \<times> world \<Rightarrow> (string \<rightharpoonup> run_result) \<times> event list \<times> world" where
  "run_all_loop af envs limit [] p = p"
| "run_all_loop af envs limit (platform # rest) (results, log, w) =
     (case run_indexer af envs platform limit w of
        (Inr r, w') \<Rightarrow>
          run_all_loop af envs limit rest
            (results(platform \<mapsto> r), log @ [Ran platform, Slept 2], w')
      | (Inl e, w') \<Rightarrow>
          run_all_loop af envs limit rest
            (results(platform \<mapsto> Error (str_of e)), log @ [Ran platform], w'))"

definition run_all_indexers ::
  "bool \<Rightarrow> (string \<Rightarrow> 'raw platform_env) \<Rightarrow> int \<Rightarrow> world \<Rightarrow>
   (string \<rightharpoonup> run_result) \<times> event list \<times> world" where
  "run_all_indexers af envs limit w = run_all_loop af envs limit all_platforms (Map.empty, [], w)"

section \<open>JSON values and the Python operations the collectors apply to them\<close>

text \<open>
  What \<^verbatim>\<open>response.json()\<close> returns, and the type of a raw record. A dictionary is an
  association list in insertion order; numbers are integers.
\<close>

datatype json =
  JNull | JBool bool | JInt int | JStr string | JArr "json list" | JObj "(string \<times> json) list"

fun truthy :: "json \<Rightarrow> bool" where
  "truthy JNull = False"
| "truthy (JBool b) = b"
| "truthy (JInt n) = (n \<noteq> 0)"
| "truthy (JStr s) = (s \<noteq> [])"
| "truthy (JArr xs) = (xs \<noteq> [])"
| "truthy (JObj d) = (d \<noteq> [])"

text \<open>\<^verbatim>\<open>d.get(key, default)\<close>; only a dictionary has the method.\<close>

fun py_get :: "json \<Rightarrow> string \<Rightarrow> json \<Rightarrow> exn + json" where
  "py_get (JObj d) k dflt = Inr (case map_of d k of None \<Rightarrow> dflt | Some v \<Rightarrow> v)"
| "py_get v k dflt = Inl (Raised ''AttributeError'')"

text \<open>\<^verbatim>\<open>d[key] = value\<close> on an association list: an existing key keeps its place.\<close>

fun dict_set :: "string \<Rightarrow> json \<Rightarrow> (string \<times> json) list \<Rightarrow> (string \<times> json) list" where
  "dict_set k v [] = [(k, v)]"
| "dict_set k v (p # ps) = (if fst p = k then (k, v) # ps else p # dict_set k v ps)"

text \<open>\<^verbatim>\<open>x[key] = value\<close> with a string key: only a dictionary accepts it.\<close>

fun py_setitem :: "json \<Rightarrow> string \<Rightarrow> json \<Rightarrow> exn + json" where
  "py_setitem (JObj d) k v = Inr (JObj (dict_set k v d))"
| "py_setitem x k v = Inl (Raised ''TypeError'')"

text \<open>The elements a \<^verbatim>\<open>for\<close> loop (or \<^verbatim>\<open>list.extend\<close>) takes from a value.\<close>

fun py_iter :: "json \<Rightarrow> exn + json list" where
  "py_iter (JArr xs) = Inr xs"
| "py_iter (JObj d) = Inr (map (\<lambda>p. JStr (fst p)) d)"
| "py_iter (JStr s) = Inr (map (\<lambda>ch. JStr [ch]) s)"
| "py_iter v = Inl (Raised ''TypeError'')"

text \<open>\<^verbatim>\<open>x[:n]\<close> on a value: strings and lists can be sliced.\<close>

fun py_slice_json :: "json \<Rightarrow> int \<Rightarrow> exn + json" where
  "py_slice_json (JStr s) n = Inr (JStr (py_slice_to s n))"
| "py_slice_json (JArr xs) n = Inr (JArr (py_slice_to xs n))"
| "py_slice_json v n = Inl (Raised ''TypeError'')"

text \<open>Substring test, \<^verbatim>\<open>needle in hay\<close> on two strings.\<close>

definition is_substring :: "string \<Rightarrow> string \<Rightarrow> bool" where
  "is_substring needle hay =
     list_ex (\<lambda>i. take (length needle) (drop i hay) = needle) [0 ..< Suc (length hay)]"

text \<open>\<^verbatim>\<open>needle in x\<close> for a string \<open>needle\<close>: substring, element or key.\<close>

fun py_in :: "string \<Rightarrow> json \<Rightarrow> exn + bool" where
  "py_in needle (JStr s) = Inr (is_substring needle s)"
| "py_in needle (JArr xs) = Inr (JStr needle \<in> set xs)"
| "py_in needle (JObj d) = Inr (needle \<in> fst ` set d)"
| "py_in needle v = Inl (Raised ''TypeError'')"

text \<open>\<^verbatim>\<open>s.startswith(p)\<close>, \<^verbatim>\<open>s.split("\n")\<close> and \<^verbatim>\<open>s.strip()\<close> on ASCII text.\<close>

definition startswith :: "string \<Rightarrow> string \<Rightarrow> bool" where
  "startswith s p = (take (length p) s = p)"

fun split_lines :: "string \<Rightarrow> string list" where
  "split_lines [] = [[]]"
| "split_lines (ch # cs) =
     (if ch = CHR 0x0A then [] # split_lines cs
      else (case split_lines cs of [] \<Rightarrow> [[ch]] | l # ls \<Rightarrow> (ch # l) # ls))"

definition is_space :: "char \<Rightarrow> bool" where
  "is_space ch =
     (ch \<in> set [CHR '' '', CHR 0x09, CHR 0x0A, CHR 0x0B, CHR 0x0C, CHR 0x0D,
                 CHR 0x1C, CHR 0x1D, CHR 0x1E, CHR 0x1F])"

definition py_strip :: "string \<Rightarrow> string" where
  "py_strip s = rev (dropWhile is_space (rev (dropWhile is_space s)))"

section \<open>HTTP: requests, responses and the httpx client\<close>

record request =
  req_url :: string
  req_params :: "(string \<times> json) list"
  req_headers :: "(string \<times> string) list"

text \<open>
  A response: its status code, what \<^verbatim>\<open>response.json()\<close> gives (it raises on a body that
  is not JSON) and \<^verbatim>\<open>response.text\<close>.
\<close>

record response =
  status_code :: int
  json_body :: "exn + json"
  body_text :: string

text \<open>
  The network: given the requests already sent and the one being sent, an exception
  (connection error, timeout) or a response.
\<close>

type_synonym upstream = "request list \<Rightarrow> request \<Rightarrow> exn + response"

text \<open>
  An \<^verbatim>\<open>httpx.AsyncClient\<close>: whether it has been closed, and the requests it has sent.
  Leaving its \<^verbatim>\<open>async with\<close> block closes it, and a closed client raises
  \<^verbatim>\<open>RuntimeError\<close> instead of sending.
\<close>

record client =
  is_closed :: bool
  sent :: "request list"

definition new_client :: client where
  "new_client = \<lparr> is_closed = False, sent = [] \<rparr>"

definition client_get :: "upstream \<Rightarrow> request \<Rightarrow> client \<Rightarrow> (exn + response) \<times> client" where
  "client_get up req c =
     (if is_closed c
      then (Inl (Raised ''Cannot send a request, as the client has been closed.''), c)
      else (up (sent c) req, c\<lparr> sent := sent c @ [req] \<rparr>))"

section \<open>The Reddit collector: app/indexers/reddit.py\<close>

definition AI_SUBREDDITS :: "string list" where
  "AI_SUBREDDITS =
     [''LocalLLaMA'', ''ChatGPT'', ''artificial'', ''MachineLearning'', ''OpenAI'',
      ''AnthropicAI'', ''AutoGPT'', ''LangChain'', ''StableDiffusion'', ''SillyTavernAI'']"

definition reddit_request :: "int \<Rightarrow> string \<Rightarrow> request" where
  "reddit_request limit subreddit =
     \<lparr> req_url = ''https://www.reddit.com/r/'' @ subreddit @ ''/hot.json'',
       req_params = [(''limit'', JInt (limit div int (length (take 5 AI_SUBREDDITS))))],
       req_headers = [(''User-Agent'', ''AgentVerse-Search/1.0'')] \<rparr>"

text \<open>
  The loop over \<^verbatim>\<open>posts\<close>: an exception at one post ends the loop, the posts appended
  before it stay in \<^verbatim>\<open>items\<close>.
\<close>

fun reddit_append_posts :: "string \<Rightarrow> json list \<Rightarrow> json list \<Rightarrow> exn option \<times> json list" where
  "reddit_append_posts subreddit [] items = (None, items)"
| "reddit_append_posts subreddit (post # posts) items =
     (case py_get post ''data'' (JObj []) of
        Inl e \<Rightarrow> (Some e, items)
      | Inr post_data \<Rightarrow>
          (case py_setitem post_data ''_subreddit'' (JStr subreddit) of
             Inl e \<Rightarrow> (Some e, items)
           | Inr post_data' \<Rightarrow> reddit_append_posts subreddit posts (items @ [post_data'])))"

text \<open>
  The branch for status 200; any exception in it is caught by the \<^verbatim>\<open>except\<close> of the
  loop body, so its effect is \<^verbatim>\<open>items\<close> as far as it got.
\<close>

definition reddit_on_200 :: "string \<Rightarrow> response \<Rightarrow> json list \<Rightarrow> json list" where
  "reddit_on_200 subreddit resp items =
     (case json_body resp of
        Inl e \<Rightarrow> items
      | Inr data \<Rightarrow>
          (case py_get data ''data'' (JObj []) of
             Inl e \<Rightarrow> items
           | Inr d \<Rightarrow>
               (case py_get d ''children'' (JArr []) of
                  Inl e \<Rightarrow> items
                | Inr children \<Rightarrow>
                    (case py_iter children of
                       Inl e \<Rightarrow> items
                     | Inr posts \<Rightarrow> snd (reddit_append_posts subreddit posts items)))))"

fun reddit_loop :: "upstream \<Rightarrow> int \<Rightarrow> string list \<Rightarrow> json list \<times> client \<Rightarrow> json list \<times> client" where
  "reddit_loop up limit [] p = p"
| "reddit_loop up limit (subreddit # rest) (items, c) =
     (case client_get up (reddit_request limit subreddit) c of
        (Inl e, c') \<Rightarrow> reddit_loop up limit rest (items, c')
      | (Inr resp, c') \<Rightarrow>
          if status_code resp = 200
          then reddit_loop up limit rest (reddit_on_200 subreddit resp items, c')
          else if status_code resp = 429 then (items, c')
          else reddit_loop up limit rest (items, c'))"

text \<open>
  \<^verbatim>\<open>RedditIndexer.fetch_content\<close>: the records it returns, and the requests it has sent.
\<close>

definition reddit_fetch_content ::
  "upstream \<Rightarrow> datetime option \<Rightarrow> int \<Rightarrow> json list \<times> request list" where
  "reddit_fetch_content up since limit =
     (case reddit_loop up limit (take 5 AI_SUBREDDITS) ([], new_client) of
        (items, c) \<Rightarrow> (py_slice_to items limit, sent c))"

section \<open>The GitHub collector: app/indexers/github.py\<close>

definition AI_KEYWORDS :: "string list" where
  "AI_KEYWORDS =
     [''ai-agent'', ''autonomous-agent'', ''llm-agent'', ''gpt-agent'', ''auto-gpt'',
      ''babyagi'', ''langchain'', ''crewai'', ''autogen'', ''llamaindex'',
      ''agent-framework'', ''ai-assistant'', ''ai-generated'', ''auto-generated'',
      ''llm-generated'']"

definition github_headers :: "string option \<Rightarrow> (string \<times> string) list" where
  "github_headers api_token =
     [(''Accept'', ''application/vnd.github.v3+json''), (''User-Agent'', ''AgentVerse-Search/1.0'')]
     @ (case api_token of
          None \<Rightarrow> []
        | Some t \<Rightarrow> if t = [] then [] else [(''Authorization'', ''token '' @ t)])"

text \<open>
  The request for one keyword. \<open>strftime\<close> is the library's formatting of \<^verbatim>\<open>since\<close> with
  \<^verbatim>\<open>"%Y-%m-%dT%H:%M:%SZ"\<close>.
\<close>

definition github_request ::
  "string option \<Rightarrow> (datetime \<Rightarrow> string) \<Rightarrow> datetime option \<Rightarrow> int \<Rightarrow> string \<Rightarrow> request" where
  "github_request api_token strftime since limit keyword =
     \<lparr> req_url = ''https://api.github.com/search/repositories'',
       req_params =
         [(''q'', JStr (keyword @ '' in:name,description,topics''
                        @ (case since of None \<Rightarrow> [] | Some t \<Rightarrow> '' pushed:>'' @ strftime t))),
          (''sort'', JStr ''updated''), (''order'', JStr ''desc''),
          (''per_page'', JInt (min (limit div int (length (take 5 AI_KEYWORDS))) 30))],
       req_headers = github_headers api_token \<rparr>"

text \<open>The branch for status 200: \<^verbatim>\<open>items.extend(data.get("items", []))\<close>.\<close>

definition github_on_200 :: "response \<Rightarrow> json list \<Rightarrow> json list" where
  "github_on_200 resp items =
     (case json_body resp of
        Inl e \<Rightarrow> items
      | Inr data \<Rightarrow>
          (case py_get data ''items'' (JArr []) of
             Inl e \<Rightarrow> items
           | Inr found \<Rightarrow>
               (case py_iter found of
                  Inl e \<Rightarrow> items
                | Inr xs \<Rightarrow> items @ xs)))"

fun github_loop ::
  "upstream \<Rightarrow> (string \<Rightarrow> request) \<Rightarrow> string list \<Rightarrow> json list \<times> client \<Rightarrow> json list \<times> client" where
  "github_loop up mk [] p = p"
| "github_loop up mk (keyword # rest) (items, c) =
     (case client_get up (mk keyword) c of
        (Inl e, c') \<Rightarrow> github_loop up mk rest (items, c')
      | (Inr resp, c') \<Rightarrow>
          if status_code resp = 200
          then github_loop up mk rest (github_on_200 resp items, c')
          else if status_code resp = 403 then (items, c')
          else github_loop up mk rest (items, c'))"

definition github_fetch_content ::
  "string option \<Rightarrow> (datetime \<Rightarrow> string) \<Rightarrow> upstream \<Rightarrow> datetime option \<Rightarrow> int \<Rightarrow>
   json list \<times> request list" where
  "github_fetch_content api_token strftime up since limit =
     (case github_loop up (github_request api_token strftime since limit)
             (take 5 AI_KEYWORDS) ([], new_client) of
        (items, c) \<Rightarrow> (py_slice_to items limit, sent c))"

section \<open>The dynamic collector: app/indexers/dynamic.py\<close>

text \<open>
  The four sub-fetchers that \<^verbatim>\<open>fetch_content\<close> gathers. Each is given its share of the
  limit and yields a list, or the exception that \<^verbatim>\<open>asyncio.gather\<close> returns in its place.
\<close>

record dynamic_sources =
  fetch_hackernews :: "int \<Rightarrow> exn + json list"
  fetch_devto :: "int \<Rightarrow> exn + json list"
  fetch_producthunt :: "int \<Rightarrow> exn + json list"
  fetch_medium :: "int \<Rightarrow> exn + json list"

text \<open>The loop over the gathered results: a list extends \<^verbatim>\<open>items\<close>, an exception is logged.\<close>

fun dynamic_merge :: "(exn + json list) list \<Rightarrow> json list \<Rightarrow> json list" where
  "dynamic_merge [] items = items"
| "dynamic_merge (Inr xs # results) items = dynamic_merge results (items @ xs)"
| "dynamic_merge (Inl e # results) items = dynamic_merge results items"

definition dynamic_fetch_content :: "dynamic_sources \<Rightarrow> datetime option \<Rightarrow> int \<Rightarrow> json list" where
  "dynamic_fetch_content srcs since limit =
     (let results = [fetch_hackernews srcs (limit div 4), fetch_devto srcs (limit div 4),
                     fetch_producthunt srcs (limit div 4), fetch_medium srcs (limit div 4)]
      in py_slice_to (dynamic_merge results []) limit)"

section \<open>The web search collector: app/indexers/websearch.py\<close>

definition SEARCH_QUERIES :: "string list" where
  "SEARCH_QUERIES =
     [''AI agent autonomous'', ''GPT agent framework'', ''LLM agent tutorial'',
      ''AI coding assistant'', ''autonomous AI bot'', ''AI generated content'',
      ''agent workflow automation'']"

definition duckduckgo_request :: "string \<Rightarrow> request" where
  "duckduckgo_request query =
     \<lparr> req_url = ''https://api.duckduckgo.com/'',
       req_params = [(''q'', JStr query), (''format'', JStr ''json''), (''no_html'', JInt 1),
                     (''skip_disambig'', JInt 1)],
       req_headers = [] \<rparr>"

text \<open>
  The loop over the related topics in \<^verbatim>\<open>_search_duckduckgo\<close>. A topic that is a
  dictionary with a truthy \<^verbatim>\<open>FirstURL\<close> gives one record; slicing its \<^verbatim>\<open>Text\<close> may raise.
\<close>

fun duckduckgo_topics :: "string \<Rightarrow> json list \<Rightarrow> json list \<Rightarrow> exn option \<times> json list" where
  "duckduckgo_topics query [] items = (None, items)"
| "duckduckgo_topics query (JObj d # topics) items =
     (if truthy (case map_of d ''FirstURL'' of None \<Rightarrow> JNull | Some v \<Rightarrow> v)
      then
        (case py_slice_json (case map_of d ''Text'' of None \<Rightarrow> JStr [] | Some v \<Rightarrow> v) 200 of
           Inl e \<Rightarrow> (Some e, items)
         | Inr t \<Rightarrow>
             duckduckgo_topics query topics
               (items @
                [JObj [(''title'', t),
                       (''url'', (case map_of d ''FirstURL'' of None \<Rightarrow> JStr [] | Some v \<Rightarrow> v)),
                       (''description'', (case map_of d ''Text'' of None \<Rightarrow> JStr [] | Some v \<Rightarrow> v)),
                       (''_source'', JStr ''duckduckgo''), (''_query'', JStr query)]]))
      else duckduckgo_topics query topics items)"
| "duckduckgo_topics query (topic # topics) items = duckduckgo_topics query topics items"

text \<open>
  The branch for status 200 of \<^verbatim>\<open>_search_duckduckgo\<close>, whose exceptions its own
  \<^verbatim>\<open>except\<close> swallows: the related topics (at most \<open>limit\<close> of them), then the abstract.
\<close>

definition duckduckgo_on_200 :: "string \<Rightarrow> int \<Rightarrow> response \<Rightarrow> json list" where
  "duckduckgo_on_200 query limit resp =
     (case json_body resp of
        Inl e \<Rightarrow> []
      | Inr data \<Rightarrow>
          (case py_get data ''RelatedTopics'' (JArr []) of
             Inl e \<Rightarrow> []
           | Inr related \<Rightarrow>
               (case py_slice_json related limit of
                  Inl e \<Rightarrow> []
                | Inr sliced \<Rightarrow>
                    (case py_iter sliced of
                       Inl e \<Rightarrow> []
                     | Inr topics \<Rightarrow>
                         (case duckduckgo_topics query topics [] of
                            (Some e, items) \<Rightarrow> items
                          | (None, items) \<Rightarrow>
                              (case py_get data ''Abstract'' JNull of
                                 Inl e \<Rightarrow> items
                               | Inr abstract \<Rightarrow>
                                   if truthy abstract
                                   then
                                     (case (py_get data ''Heading'' (JStr query),
                                            py_get data ''AbstractURL'' (JStr []),
                                            py_get data ''Abstract'' (JStr [])) of
                                        (Inr h, Inr u, Inr a) \<Rightarrow>
                                          items @
                                          [JObj [(''title'', h), (''url'', u), (''description'', a),
                                                 (''_source'', JStr ''duckduckgo''),
                                                 (''_query'', JStr query)]]
                                      | _ \<Rightarrow> items)
                                   else items))))))"

text \<open>\<^verbatim>\<open>_search_duckduckgo\<close>: it never raises, a failed request gives no record.\<close>

definition search_duckduckgo :: "upstream \<Rightarrow> client \<Rightarrow> string \<Rightarrow> int \<Rightarrow> json list \<times> client" where
  "search_duckduckgo up c query limit =
     (case client_get up (duckduckgo_request query) c of
        (Inl e, c') \<Rightarrow> ([], c')
      | (Inr resp, c') \<Rightarrow>
          (if status_code resp = 200 then duckduckgo_on_200 query limit resp else [], c'))"

text \<open>The loop over the queries inside the \<^verbatim>\<open>async with\<close> block of \<^verbatim>\<open>fetch_content\<close>.\<close>

fun search_loop :: "upstream \<Rightarrow> int \<Rightarrow> string list \<Rightarrow> json list \<times> client \<Rightarrow> json list \<times> client" where
  "search_loop up per_query [] p = p"
| "search_loop up per_query (query # rest) (items, c) =
     (case search_duckduckgo up c query per_query of
        (search_items, c') \<Rightarrow> search_loop up per_query rest (items @ search_items, c'))"

text \<open>
  The line parser of \<^verbatim>\<open>_fetch_discovery_feeds\<close>; the state is \<^verbatim>\<open>current_item\<close> and
  \<^verbatim>\<open>items\<close>.
\<close>

definition has_field :: "(string \<times> json) list \<Rightarrow> string \<Rightarrow> bool" where
  "has_field d k = truthy (case map_of d k of None \<Rightarrow> JNull | Some v \<Rightarrow> v)"

fun feed_lines ::
  "string \<Rightarrow> string list \<Rightarrow> (string \<times> json) list \<times> json list \<Rightarrow> (string \<times> json) list \<times> json list" where
  "feed_lines source [] p = p"
| "feed_lines source (line # lines) (current_item, items) =
     (if startswith line ''Title:''
      then feed_lines source lines
             ([(''title'', JStr (py_strip (drop 6 line)))],
              if has_field current_item ''title''
              then items @ [JObj (dict_set ''_source'' (JStr source) current_item)] else items)
      else if startswith line ''URL:''
      then feed_lines source lines
             (dict_set ''url'' (JStr (py_strip (drop 4 line))) current_item, items)
      else if has_field current_item ''title'' \<and> \<not> has_field current_item ''description''
      then feed_lines source lines
             (dict_set ''description'' (JStr (take 500 line)) current_item, items)
      else feed_lines source lines (current_item, items))"

definition feed_on_200 :: "string \<Rightarrow> response \<Rightarrow> json list \<Rightarrow> json list" where
  "feed_on_200 source resp items =
     (case feed_lines source (split_lines (body_text resp)) ([], items) of
        (current_item, items') \<Rightarrow>
          if has_field current_item ''title''
          then items' @ [JObj (dict_set ''_source'' (JStr source) current_item)] else items')"

definition discovery_feeds :: "(string \<times> string) list" where
  "discovery_feeds =
     [(''https://r.jina.ai/http://feeds.feedburner.com/oreilly/radar'', ''oreilly''),
      (''https://r.jina.ai/http://feeds.arxiv.org/arxiv/cs.AI'', ''arxiv-rss''),
      (''https://r.jina.ai/https://www.artificialintelligence-news.com/feed/'', ''ai-news'')]"

fun feeds_loop ::
  "upstream \<Rightarrow> (string \<times> string) list \<Rightarrow> json list \<times> client \<Rightarrow> json list \<times> client" where
  "feeds_loop up [] p = p"
| "feeds_loop up ((feed_url, source) # rest) (items, c) =
     (case client_get up \<lparr> req_url = feed_url, req_params = [], req_headers = [] \<rparr> c of
        (Inl e, c') \<Rightarrow> feeds_loop up rest (items, c')
      | (Inr resp, c') \<Rightarrow>
          feeds_loop up rest
            (if status_code resp = 200 then feed_on_200 source resp items else items, c'))"

definition fetch_discovery_feeds :: "upstream \<Rightarrow> client \<Rightarrow> int \<Rightarrow> json list \<times> client" where
  "fetch_discovery_feeds up c limit =
     (case feeds_loop up (take 2 discovery_feeds) ([], c) of
        (items, c') \<Rightarrow> (py_slice_to items limit, c'))"

text \<open>
  \<^verbatim>\<open>WebSearchIndexer.fetch_content\<close>: the searches run inside the \<^verbatim>\<open>async with\<close> block;
  the discovery feeds are fetched after the block, with the same client. The result is the
  records returned and the requests sent. The pause of half a second after each search
  does not change either and is left out.
\<close>

definition websearch_fetch_content ::
  "upstream \<Rightarrow> datetime option \<Rightarrow> int \<Rightarrow> json list \<times> request list" where
  "websearch_fetch_content up since limit =
     (case search_loop up (limit div 5) (take 5 SEARCH_QUERIES) ([], new_client) of
        (items, c) \<Rightarrow>
          (case fetch_discovery_feeds up (c\<lparr> is_closed := True \<rparr>) (limit div 2) of
             (discovery_items, c') \<Rightarrow> (py_slice_to (items @ discovery_items) limit, sent c')))"

text \<open>
  The library functions \<^verbatim>\<open>parse_content\<close> calls: \<^verbatim>\<open>urllib.parse.urlparse(url).netloc\<close>
  (which may raise) and the text an f-string gives for a value that is not a string.
\<close>

record pylib =
  netloc :: "string \<Rightarrow> exn + string"
  format_value :: "json \<Rightarrow> string"

definition py_format :: "pylib \<Rightarrow> json \<Rightarrow> string" where
  "py_format lib v = (case v of JStr s \<Rightarrow> s | _ \<Rightarrow> format_value lib v)"

text \<open>\<^verbatim>\<open>s.replace("www.", "")\<close>.\<close>

function strip_www :: "string \<Rightarrow> string" where
  "strip_www s =
     (if s = [] then []
      else if take 4 s = ''www.'' then strip_www (drop 4 s)
      else hd s # strip_www (tl s))"
  by pat_completeness auto
termination
  by (relation "measure length") auto

text \<open>The \<^verbatim>\<open>if/elif\<close> chain that derives the content type from the URL.\<close>

definition websearch_content_type :: "json \<Rightarrow> exn + string" where
  "websearch_content_type url =
     (case (py_in ''youtube.com'' url, py_in ''vimeo.com'' url, py_in ''github.com'' url,
            py_in ''arxiv.org'' url, py_in ''medium.com'' url, py_in ''blog'' url) of
        (Inr yt, Inr vim, Inr gh, Inr ax, Inr med, Inr blog) \<Rightarrow>
          Inr (if yt \<or> vim then ''video''
               else if gh then ''code''
               else if ax then ''research''
               else if med \<or> blog then ''document''
               else ''post'')
      | _ \<Rightarrow> Inl (Raised ''TypeError''))"

text \<open>The \<^verbatim>\<open>try/except\<close> around \<^verbatim>\<open>urlparse\<close>: on any exception the domain is \<^verbatim>\<open>source\<close>.\<close>

definition websearch_domain :: "pylib \<Rightarrow> json \<Rightarrow> json \<Rightarrow> json" where
  "websearch_domain lib url source =
     (case url of
        JStr u \<Rightarrow> (case netloc lib u of Inl e \<Rightarrow> source | Inr d \<Rightarrow> JStr (strip_www d))
      | _ \<Rightarrow> source)"

text \<open>Validation of a field declared \<^verbatim>\<open>str\<close> by the pydantic model.\<close>

fun as_str :: "json \<Rightarrow> exn + string" where
  "as_str (JStr s) = Inr s"
| "as_str v = Inl (Raised ''ValidationError'')"

text \<open>
  \<^verbatim>\<open>WebSearchIndexer.parse_content\<close>: \<^verbatim>\<open>None\<close> for a falsy record and for one without a
  truthy \<^verbatim>\<open>url\<close> or \<^verbatim>\<open>title\<close>.
\<close>

definition websearch_parse_content :: "pylib \<Rightarrow> json \<Rightarrow> exn + content_create option" where
  "websearch_parse_content lib raw_data =
     (if \<not> truthy raw_data then Inr None
      else
        (case (py_get raw_data ''_source'' (JStr ''web''), py_get raw_data ''title'' (JStr []),
               py_get raw_data ''url'' (JStr []), py_get raw_data ''description'' (JStr []),
               py_get raw_data ''_query'' (JStr ''ai'')) of
           (Inr source, Inr title', Inr url, Inr description', Inr query) \<Rightarrow>
             if \<not> truthy url \<or> \<not> truthy title' then Inr None
             else
               (case websearch_content_type url of
                  Inl e \<Rightarrow> Inl e
                | Inr ctype \<Rightarrow>
                    (let domain = websearch_domain lib url source in
                     case (if truthy description' then py_slice_json description' 500
                           else Inr (JStr (''Found via search: '' @ py_format lib query)),
                           py_slice_json domain 50) of
                       (Inr desc, Inr platform) \<Rightarrow>
                         (case (as_str title', as_str desc, as_str url, as_str platform,
                                as_str query, as_str source) of
                            (Inr t, Inr d, Inr u, Inr pf, Inr q, Inr src) \<Rightarrow>
                              Inr (Some
                                \<lparr> content_type = ctype, title = t, description = Some d,
                                  content_body = None, content_url = Some u,
                                  thumbnail_url = None, source_platform = Some pf,
                                  source_url = Some u, tags = Some [q, src, ctype],
                                  categories = Some [], language = None, license = None,
                                  agent_id_external = ''web:'' @ py_format lib domain \<rparr>)
                          | _ \<Rightarrow> Inl (Raised ''ValidationError''))
                     | _ \<Rightarrow> Inl (Raised ''TypeError'')))
         | _ \<Rightarrow> Inl (Raised ''AttributeError'')))"

text \<open>The web search collector as the run coordinator sees it.\<close>

definition websearch_indexer :: "pylib \<Rightarrow> upstream \<Rightarrow> json indexer" where
  "websearch_indexer lib up =
     \<lparr> fetch_content = (\<lambda>since limit. Inr (fst (websearch_fetch_content up since limit))),
       parse_content = websearch_parse_content lib \<rparr>"

section \<open>Loops shared by the remaining collectors\<close>

text \<open>
  \<^verbatim>\<open>for x in xs: x[key] = value; items.append(x)\<close>, the loop by which the Hugging Face,
  Moltbook and YouTube collectors mark and collect the records of a response. An element
  that is not a dictionary makes the assignment raise, which ends the loop; the records
  appended before stay in \<^verbatim>\<open>items\<close>.
\<close>

fun append_tagged :: "string \<Rightarrow> json \<Rightarrow> json list \<Rightarrow> json list \<Rightarrow> exn option \<times> json list" where
  "append_tagged key v [] items = (None, items)"
| "append_tagged key v (x # xs) items =
     (case py_setitem x key v of
        Inl e \<Rightarrow> (Some e, items)
      | Inr x' \<Rightarrow> append_tagged key v xs (items @ [x']))"

section \<open>The Hugging Face collector: app/indexers/huggingface.py\<close>

definition huggingface_headers :: "string option \<Rightarrow> (string \<times> string) list" where
  "huggingface_headers api_token =
     [(''User-Agent'', ''AgentVerse-Search/1.0'')]
     @ (case api_token of
          None \<Rightarrow> []
        | Some t \<Rightarrow> if t = [] then [] else [(''Authorization'', ''Bearer '' @ t)])"

definition huggingface_request :: "string option \<Rightarrow> string \<Rightarrow> int \<Rightarrow> request" where
  "huggingface_request api_token path n =
     \<lparr> req_url = ''https://huggingface.co/api'' @ path,
       req_params = [(''limit'', JInt n), (''full'', JStr ''true''), (''sort'', JStr ''downloads''),
                     (''direction'', JStr ''-1'')],
       req_headers = huggingface_headers api_token \<rparr>"

text \<open>The branch for status 200: every element of the decoded body is marked and kept.\<close>

definition huggingface_on_200 :: "string \<Rightarrow> response \<Rightarrow> json list \<Rightarrow> json list" where
  "huggingface_on_200 kind resp items =
     (case json_body resp of
        Inl e \<Rightarrow> items
      | Inr data \<Rightarrow>
          (case py_iter data of
             Inl e \<Rightarrow> items
           | Inr xs \<Rightarrow> snd (append_tagged ''_content_type'' (JStr kind) xs items)))"

text \<open>One of the two \<^verbatim>\<open>try\<close> blocks of \<^verbatim>\<open>fetch_content\<close>: a request and its handling.\<close>

definition huggingface_step ::
  "upstream \<Rightarrow> request \<Rightarrow> string \<Rightarrow> json list \<times> client \<Rightarrow> json list \<times> client" where
  "huggingface_step up req kind p =
     (case p of (items, c) \<Rightarrow>
        (case client_get up req c of
           (Inl e, c') \<Rightarrow> (items, c')
         | (Inr resp, c') \<Rightarrow>
             (if status_code resp = 200 then huggingface_on_200 kind resp items else items, c')))"

definition huggingface_fetch_content ::
  "string option \<Rightarrow> upstream \<Rightarrow> datetime option \<Rightarrow> int \<Rightarrow> json list \<times> request list" where
  "huggingface_fetch_content api_token up since limit =
     (case huggingface_step up (huggingface_request api_token ''/datasets'' (limit div 2)) ''dataset''
             (huggingface_step up (huggingface_request api_token ''/models'' limit) ''model''
                ([], new_client)) of
        (items, c) \<Rightarrow> (py_slice_to items limit, sent c))"

section \<open>The Moltbook collector: app/indexers/moltbook.py\<close>

text \<open>\<^verbatim>\<open>api_url or "https://moltbook.com/api"\<close>.\<close>

definition moltbook_api_url :: "string option \<Rightarrow> string" where
  "moltbook_api_url api_url =
     (case api_url of
        None \<Rightarrow> ''https://moltbook.com/api''
      | Some u \<Rightarrow> if u = [] then ''https://moltbook.com/api'' else u)"

text \<open>
  The branch for status 200 of the first request:
  \<^verbatim>\<open>data.get("posts", data if isinstance(data, list) else [])\<close>, then the marking loop.
\<close>

definition moltbook_on_200 :: "response \<Rightarrow> json list \<Rightarrow> json list" where
  "moltbook_on_200 resp items =
     (case json_body resp of
        Inl e \<Rightarrow> items
      | Inr data \<Rightarrow>
          (case py_get data ''posts'' (case data of JArr xs \<Rightarrow> data | _ \<Rightarrow> JArr []) of
             Inl e \<Rightarrow> items
           | Inr posts \<Rightarrow>
               (case py_iter posts of
                  Inl e \<Rightarrow> items
                | Inr ps \<Rightarrow> snd (append_tagged ''_source'' (JStr ''moltbook'') ps items))))"

text \<open>\<^verbatim>\<open>_fetch_twitter_ai_posts\<close>: one request and at most one record per account.\<close>

fun twitter_loop :: "upstream \<Rightarrow> string list \<Rightarrow> json list \<times> client \<Rightarrow> json list \<times> client" where
  "twitter_loop up [] p = p"
| "twitter_loop up (account # rest) (items, c) =
     (case client_get up \<lparr> req_url = ''https://nitter.net/'' @ account, req_params = [],
                           req_headers = [(''User-Agent'', ''Mozilla/5.0'')] \<rparr> c of
        (Inl e, c') \<Rightarrow> twitter_loop up rest (items, c')
      | (Inr resp, c') \<Rightarrow>
          twitter_loop up rest
            (if status_code resp = 200
             then items @
                  [JObj [(''title'', JStr (''Latest from @'' @ account)),
                         (''content'', JStr (''AI agent posts from '' @ account)),
                         (''url'', JStr (''https://x.com/'' @ account)),
                         (''author'', JStr account), (''_source'', JStr ''twitter'')]]
             else items, c'))"

definition fetch_twitter_ai_posts :: "upstream \<Rightarrow> client \<Rightarrow> int \<Rightarrow> json list \<times> client" where
  "fetch_twitter_ai_posts up c limit =
     twitter_loop up (take 3 [''autogpt'', ''crewaiinc'', ''langchainai'', ''anthropicai'', ''openai''])
       ([], c)"

text \<open>\<^verbatim>\<open>_fetch_bluesky_posts\<close>: one request, whose posts are marked and kept.\<close>

definition bluesky_on_200 :: "response \<Rightarrow> json list" where
  "bluesky_on_200 resp =
     (case json_body resp of
        Inl e \<Rightarrow> []
      | Inr data \<Rightarrow>
          (case py_get data ''posts'' (JArr []) of
             Inl e \<Rightarrow> []
           | Inr posts \<Rightarrow>
               (case py_iter posts of
                  Inl e \<Rightarrow> []
                | Inr ps \<Rightarrow> snd (append_tagged ''_source'' (JStr ''bluesky'') ps []))))"

definition fetch_bluesky_posts :: "upstream \<Rightarrow> client \<Rightarrow> int \<Rightarrow> json list \<times> client" where
  "fetch_bluesky_posts up c limit =
     (case client_get up
             \<lparr> req_url = ''https://public.api.bsky.app/xrpc/app.bsky.feed.searchPosts'',
               req_params = [(''q'', JStr ''AI agent OR autonomous OR LLM''), (''limit'', JInt limit)],
               req_headers = [] \<rparr> c of
        (Inl e, c') \<Rightarrow> ([], c')
      | (Inr resp, c') \<Rightarrow> (if status_code resp = 200 then bluesky_on_200 resp else [], c'))"

text \<open>
  \<^verbatim>\<open>MoltbookIndexer.fetch_content\<close>: the posts of the platform, then the two fallbacks,
  all with one client.
\<close>

definition moltbook_fetch_content ::
  "string option \<Rightarrow> upstream \<Rightarrow> datetime option \<Rightarrow> int \<Rightarrow> json list \<times> request list" where
  "moltbook_fetch_content api_url up since limit =
     (case client_get up
             \<lparr> req_url = moltbook_api_url api_url @ ''/posts'',
               req_params = [(''limit'', JInt limit), (''sort'', JStr ''popular''),
                             (''type'', JStr ''agent'')],
               req_headers = [] \<rparr> new_client of
        (r, c1) \<Rightarrow>
          (let items1 = (case r of
                           Inl e \<Rightarrow> []
                         | Inr resp \<Rightarrow> if status_code resp = 200 then moltbook_on_200 resp [] else [])
           in case fetch_twitter_ai_posts up c1 (limit div 2) of
                (twitter_items, c2) \<Rightarrow>
                  (case fetch_bluesky_posts up c2 (limit div 2) of
                     (bluesky_items, c3) \<Rightarrow>
                       (py_slice_to (items1 @ twitter_items @ bluesky_items) limit, sent c3))))"

section \<open>The YouTube collector: app/indexers/youtube.py\<close>

definition AI_SEARCH_TERMS :: "string list" where
  "AI_SEARCH_TERMS =
     [''AI generated video'', ''autonomous AI agent'', ''AI art timelapse'', ''GPT-4 demo'',
      ''Claude AI'', ''AI music generation'']"

definition youtube_request :: "string \<Rightarrow> int \<Rightarrow> string \<Rightarrow> request" where
  "youtube_request api_key limit query =
     \<lparr> req_url = ''https://www.googleapis.com/youtube/v3/search'',
       req_params =
         [(''part'', JStr ''snippet''), (''q'', JStr query), (''type'', JStr ''video''),
          (''order'', JStr ''date''),
          (''maxResults'', JInt (min (limit div int (length (take 5 AI_SEARCH_TERMS))) 20)),
          (''key'', JStr api_key)],
       req_headers = [] \<rparr>"

definition youtube_on_200 :: "string \<Rightarrow> response \<Rightarrow> json list \<Rightarrow> json list" where
  "youtube_on_200 query resp items =
     (case json_body resp of
        Inl e \<Rightarrow> items
      | Inr data \<Rightarrow>
          (case py_get data ''items'' (JArr []) of
             Inl e \<Rightarrow> items
           | Inr found \<Rightarrow>
               (case py_iter found of
                  Inl e \<Rightarrow> items
                | Inr xs \<Rightarrow> snd (append_tagged ''_query'' (JStr query) xs items))))"

fun youtube_loop ::
  "upstream \<Rightarrow> string \<Rightarrow> int \<Rightarrow> string list \<Rightarrow> json list \<times> client \<Rightarrow> json list \<times> client" where
  "youtube_loop up api_key limit [] p = p"
| "youtube_loop up api_key limit (query # rest) (items, c) =
     (case client_get up (youtube_request api_key limit query) c of
        (Inl e, c') \<Rightarrow> youtube_loop up api_key limit rest (items, c')
      | (Inr resp, c') \<Rightarrow>
          if status_code resp = 200
          then youtube_loop up api_key limit rest (youtube_on_200 query resp items, c')
          else if status_code resp = 403 then (items, c')
          else youtube_loop up api_key limit rest (items, c'))"

text \<open>
  \<^verbatim>\<open>_extract_video_id\<close>: the first match of the pattern
  \<^verbatim>\<open>(?:v=|/v/|youtu\.be/)([^&\?/]+)\<close>, searched from the left, or the empty string.
\<close>

definition video_id_after :: "string \<Rightarrow> string \<Rightarrow> string option" where
  "video_id_after prefix s =
     (if startswith s prefix
         \<and> takeWhile (\<lambda>ch. ch \<notin> set ''&?/'') (drop (length prefix) s) \<noteq> []
      then Some (takeWhile (\<lambda>ch. ch \<notin> set ''&?/'') (drop (length prefix) s))
      else None)"

definition video_id_here :: "string \<Rightarrow> string option" where
  "video_id_here s =
     (case video_id_after ''v='' s of
        Some v \<Rightarrow> Some v
      | None \<Rightarrow>
          (case video_id_after ''/v/'' s of
             Some v \<Rightarrow> Some v
           | None \<Rightarrow> video_id_after ''youtu.be/'' s))"

fun extract_video_id :: "string \<Rightarrow> string" where
  "extract_video_id [] = []"
| "extract_video_id (ch # cs) =
     (case video_id_here (ch # cs) of Some v \<Rightarrow> v | None \<Rightarrow> extract_video_id cs)"

text \<open>\<^verbatim>\<open>entry.link\<close>, \<^verbatim>\<open>entry.title\<close>: attribute access on a feed entry raises when it is absent.\<close>

fun py_attr :: "json \<Rightarrow> string \<Rightarrow> exn + json" where
  "py_attr (JObj d) k =
     (case map_of d k of None \<Rightarrow> Inl (Raised ''AttributeError'') | Some v \<Rightarrow> Inr v)"
| "py_attr v k = Inl (Raised ''AttributeError'')"

text \<open>The record built from one feed entry; the link must be a string for the pattern search.\<close>

definition youtube_rss_record :: "string \<Rightarrow> json \<Rightarrow> exn + json" where
  "youtube_rss_record query entry =
     (case py_attr entry ''link'' of
        Inl e \<Rightarrow> Inl e
      | Inr (JStr link) \<Rightarrow>
          (case (py_attr entry ''title'', py_get entry ''summary'' (JStr []),
                 py_get entry ''author'' (JStr ''Unknown''), py_get entry ''published'' (JStr [])) of
             (Inr t, Inr summary, Inr author, Inr published) \<Rightarrow>
               (case py_get entry ''description'' summary of
                  Inl e \<Rightarrow> Inl e
                | Inr d \<Rightarrow>
                    Inr (JObj [(''id'', JObj [(''videoId'', JStr (extract_video_id link))]),
                               (''snippet'',
                                JObj [(''title'', t), (''description'', d),
                                      (''channelTitle'', author), (''publishedAt'', published),
                                      (''thumbnails'', JObj [])]),
                               (''_query'', JStr query)]))
           | _ \<Rightarrow> Inl (Raised ''AttributeError''))
      | Inr other \<Rightarrow> Inl (Raised ''TypeError''))"

fun youtube_rss_append :: "string \<Rightarrow> json list \<Rightarrow> json list \<Rightarrow> exn option \<times> json list" where
  "youtube_rss_append query [] items = (None, items)"
| "youtube_rss_append query (entry # entries) items =
     (case youtube_rss_record query entry of
        Inl e \<Rightarrow> (Some e, items)
      | Inr r \<Rightarrow> youtube_rss_append query entries (items @ [r]))"

text \<open>
  The loop of \<^verbatim>\<open>_fetch_via_rss\<close>. \<open>feedparser\<close> is the library's \<^verbatim>\<open>feedparser.parse(text).entries\<close>;
  at most \<^verbatim>\<open>limit // 5\<close> entries of each feed are used.
\<close>

fun youtube_rss_loop ::
  "(string \<Rightarrow> exn + json list) \<Rightarrow> upstream \<Rightarrow> int \<Rightarrow> string list \<Rightarrow> json list \<times> client \<Rightarrow>
   json list \<times> client" where
  "youtube_rss_loop feedparser up limit [] p = p"
| "youtube_rss_loop feedparser up limit (query # rest) (items, c) =
     (case client_get up \<lparr> req_url = ''https://www.youtube.com/rss/search/'' @ query @ ''/videos'',
                           req_params = [], req_headers = [] \<rparr> c of
        (Inl e, c') \<Rightarrow> youtube_rss_loop feedparser up limit rest (items, c')
      | (Inr resp, c') \<Rightarrow>
          youtube_rss_loop feedparser up limit rest
            (if status_code resp = 200
             then (case feedparser (body_text resp) of
                     Inl e \<Rightarrow> items
                   | Inr entries \<Rightarrow>
                       snd (youtube_rss_append query (py_slice_to entries (limit div 5)) items))
             else items, c'))"

text \<open>\<^verbatim>\<open>_fetch_via_rss\<close> returns \<^verbatim>\<open>items\<close> as they are, without a slice.\<close>

definition fetch_via_rss ::
  "(string \<Rightarrow> exn + json list) \<Rightarrow> upstream \<Rightarrow> int \<Rightarrow> json list \<times> request list" where
  "fetch_via_rss feedparser up limit =
     (case youtube_rss_loop feedparser up limit (take 5 AI_SEARCH_TERMS) ([], new_client) of
        (items, c) \<Rightarrow> (items, sent c))"

text \<open>
  \<^verbatim>\<open>YouTubeIndexer.fetch_content\<close>: without an API key the RSS fallback, otherwise one
  search request per term.
\<close>

definition youtube_fetch_content ::
  "(string \<Rightarrow> exn + json list) \<Rightarrow> string option \<Rightarrow> upstream \<Rightarrow> datetime option \<Rightarrow> int \<Rightarrow>
   json list \<times> request list" where
  "youtube_fetch_content feedparser api_key up since limit =
     (case api_key of
        None \<Rightarrow> fetch_via_rss feedparser up limit
      | Some k \<Rightarrow>
          if k = [] then fetch_via_rss feedparser up limit
          else (case youtube_loop up k limit (take 5 AI_SEARCH_TERMS) ([], new_client) of
                  (items, c) \<Rightarrow> (py_slice_to items limit, sent c)))"

section \<open>Auxiliary notions and example inputs for the theorems\<close>

text \<open>
  An exception is raised inside the \<^verbatim>\<open>try\<close> of \<^verbatim>\<open>index_content\<close>: by the duplicate query,
  or by the query of \<^verbatim>\<open>get_or_create_agent\<close>.
\<close>

definition upsert_raises :: "content_create \<Rightarrow> session \<Rightarrow> bool" where
  "upsert_raises c s =
     (case duplicate_check c s of
        (Inl e, s1) \<Rightarrow> True
      | (Inr True, s1) \<Rightarrow> False
      | (Inr False, s1) \<Rightarrow>
          isl (fst (get_or_create_agent (agent_id_external c) (agent_id_external c) s1)))"

text \<open>A catalog without rows, and a well-formed item of agent \<open>aid\<close> at address \<open>url\<close>.\<close>

definition empty_store :: store where
  "empty_store = \<lparr> agents = [], contents = [] \<rparr>"

definition example_item :: "string \<Rightarrow> string \<Rightarrow> content_create" where
  "example_item aid url =
     \<lparr> content_type = ''post'', title = ''A post'', description = None, content_body = None,
       content_url = Some url, thumbnail_url = None, source_platform = Some ''example'',
       source_url = Some url, tags = Some [], categories = Some [], language = None,
       license = None, agent_id_external = aid \<rparr>"

text \<open>
  A collector whose fetch returns five records, numbered 1 to 5; normalizing record 3
  raises, the other four give items of one agent at four different addresses.
\<close>

definition example_url :: "nat \<Rightarrow> string" where
  "example_url n =
     (if n = 1 then ''https://example.org/1'' else if n = 2 then ''https://example.org/2''
      else if n = 4 then ''https://example.org/4'' else ''https://example.org/5'')"

definition batch_of_five :: "nat indexer" where
  "batch_of_five =
     \<lparr> fetch_content = (\<lambda>since limit. Inr [1, 2, 3, 4, 5]),
       parse_content =
         (\<lambda>n. if n = 3 then Inl (Raised ''malformed record'')
              else Inr (Some (example_item ''web:example.org'' (example_url n)))) \<rparr>"

text \<open>A collector whose fetch raises, and one that returns a single record for an item.\<close>

definition failing_collector :: "nat indexer" where
  "failing_collector =
     \<lparr> fetch_content = (\<lambda>since limit. Inl (Raised ''upstream unavailable'')),
       parse_content = (\<lambda>n. Inr None) \<rparr>"

definition single_collector :: "string \<Rightarrow> nat indexer" where
  "single_collector platform =
     \<lparr> fetch_content = (\<lambda>since limit. Inr [0]),
       parse_content =
         (\<lambda>n. Inr (Some (example_item (platform @ '':bot'') (''https://example.org/'' @ platform)))) \<rparr>"

text \<open>
  Surroundings without faults of the session. In \<open>healthy_envs\<close> every platform has a
  collector that returns one item; in \<open>outage_envs\<close> the fetch of the platform \<open>down\<close>
  raises. The clock reads 200.
\<close>

definition healthy_envs :: "string \<Rightarrow> nat platform_env" where
  "healthy_envs platform =
     \<lparr> collector = single_collector platform, session_fault = None,
       env_commit_fault = None, env_rollback_fault = None, utcnow = 200 \<rparr>"

definition outage_envs :: "string \<Rightarrow> string \<Rightarrow> nat platform_env" where
  "outage_envs down platform =
     \<lparr> collector = (if platform = down then failing_collector else single_collector platform),
       session_fault = None, env_commit_fault = None, env_rollback_fault = None,
       utcnow = 200 \<rparr>"

text \<open>An empty catalog; the watermark of \<^verbatim>\<open>reddit\<close> is 100.\<close>

definition world0 :: world where
  "world0 = \<lparr> last_run = [''reddit'' \<mapsto> 100], database = empty_store \<rparr>"

text \<open>A session on a catalog that holds the same address twice.\<close>

definition duplicated_session :: session where
  "duplicated_session =
     open_session True None None
       \<lparr> agents = [],
         contents = [new_agent_content (example_item ''a:bot'' ''https://example.org/a'') 1,
                     new_agent_content (example_item ''a:bot'' ''https://example.org/a'') 1] \<rparr>"

text \<open>Library functions for the examples, and a network that answers nothing.\<close>

definition example_lib :: pylib where
  "example_lib = \<lparr> netloc = (\<lambda>u. Inr u), format_value = (\<lambda>v. ''value'') \<rparr>"

definition no_network :: upstream where
  "no_network = (\<lambda>history req. Inl (Raised ''connection refused''))"


text \<open>A network that answers every request with one status code and no JSON body.\<close>

definition always_status :: "int \<Rightarrow> upstream" where
  "always_status code =
     (\<lambda>history req. Inr \<lparr> status_code = code, json_body = Inl (Raised ''not JSON''),
                          body_text = [] \<rparr>)"


text \<open>
  A network on which the first two subreddits answer with three posts each, and every
  other address with status 404.
\<close>

definition three_posts :: json where
  "three_posts =
     JObj [(''data'', JObj [(''children'',
       JArr [JObj [(''data'', JObj [(''title'', JStr ''first'')])],
             JObj [(''data'', JObj [(''title'', JStr ''second'')])],
             JObj [(''data'', JObj [(''title'', JStr ''third'')])]])])]"

definition two_subreddits :: upstream where
  "two_subreddits =
     (\<lambda>history req.
        if req_url req \<in> {''https://www.reddit.com/r/LocalLLaMA/hot.json'',
                           ''https://www.reddit.com/r/ChatGPT/hot.json''}
        then Inr \<lparr> status_code = 200, json_body = Inr three_posts, body_text = [] \<rparr>
        else Inr \<lparr> status_code = 404, json_body = Inl (Raised ''not JSON''), body_text = [] \<rparr>)"


text \<open>A network that serves a feed of one article to every request.\<close>

definition feed_network :: upstream where
  "feed_network =
     (\<lambda>history req.
        Inr \<lparr> status_code = 200, json_body = Inl (Raised ''not JSON''),
              body_text = ''Title: An article'' @ [CHR 0x0A] @ ''URL: https://example.org/article'' \<rparr>)"

text \<open>Four sub-fetchers of the dynamic collector that return two records each.\<close>

definition two_each :: dynamic_sources where
  "two_each =
     \<lparr> fetch_hackernews = (\<lambda>n. Inr [JStr ''h1'', JStr ''h2'']),
       fetch_devto = (\<lambda>n. Inr [JStr ''d1'', JStr ''d2'']),
       fetch_producthunt = (\<lambda>n. Inl (Raised ''not accessible'')),
       fetch_medium = (\<lambda>n. Inr [JStr ''m1'', JStr ''m2'']) \<rparr>"

text \<open>
  Surroundings in which the database connection is lost: \<^verbatim>\<open>commit()\<close> and
  \<^verbatim>\<open>rollback()\<close> both raise.
\<close>

definition lost_connection :: "nat indexer \<Rightarrow> string \<Rightarrow> nat platform_env" where
  "lost_connection idx platform =
     \<lparr> collector = idx, session_fault = None,
       env_commit_fault = Some (Raised ''connection lost''),
       env_rollback_fault = Some (Raised ''connection lost''), utcnow = 200 \<rparr>"

text \<open>A feed library that finds three entries in every feed, on a network that answers 200.\<close>

definition three_entries :: "string \<Rightarrow> exn + json list" where
  "three_entries body =
     Inr [JObj [(''link'', JStr ''https://youtu.be/a1''), (''title'', JStr ''one'')],
          JObj [(''link'', JStr ''https://youtu.be/b2''), (''title'', JStr ''two'')],
          JObj [(''link'', JStr ''https://youtu.be/c3''), (''title'', JStr ''three'')]]"

section \<open>The session: what the operations leave unchanged\<close>

lemma db_flush_fields [simp]:
  "committed (db_flush s) = committed s"
  "autoflush (db_flush s) = autoflush s"
  "commit_fault (db_flush s) = commit_fault s"
  "rollback_fault (db_flush s) = rollback_fault s"
  "pending (db_flush s) = []"
  "agents (txn (db_flush s)) = agents (txn s)"
  "contents (txn (db_flush s)) = contents (txn s) @ pending s"
  by (simp_all add: db_flush_def)

lemma before_query_fields [simp]:
  "committed (before_query s) = committed s"
  "autoflush (before_query s) = autoflush s"
  "commit_fault (before_query s) = commit_fault s"
  "rollback_fault (before_query s) = rollback_fault s"
  "agents (txn (before_query s)) = agents (txn s)"
  "contents (txn (before_query s)) @ pending (before_query s) = contents (txn s) @ pending s"
  by (simp_all add: before_query_def)

lemma get_or_create_agent_fields:
  "committed (snd (get_or_create_agent a n s)) = committed s"
  "autoflush (snd (get_or_create_agent a n s)) = autoflush s"
  "commit_fault (snd (get_or_create_agent a n s)) = commit_fault s"
  "rollback_fault (snd (get_or_create_agent a n s)) = rollback_fault s"
  by (simp_all add: get_or_create_agent_def Let_def split: sum.splits option.splits)

lemma content_exists_fields:
  "committed (snd (content_exists u s)) = committed s"
  "autoflush (snd (content_exists u s)) = autoflush s"
  "commit_fault (snd (content_exists u s)) = commit_fault s"
  "rollback_fault (snd (content_exists u s)) = rollback_fault s"
  by (simp_all add: content_exists_def Let_def split: sum.splits option.splits)

lemma duplicate_check_fields:
  "committed (snd (duplicate_check c s)) = committed s"
  "autoflush (snd (duplicate_check c s)) = autoflush s"
  "commit_fault (snd (duplicate_check c s)) = commit_fault s"
  "rollback_fault (snd (duplicate_check c s)) = rollback_fault s"
  by (simp_all add: duplicate_check_def content_exists_fields split: option.splits)

lemma bump_add_fields [simp]:
  "committed (bump_total_creations a s) = committed s"
  "autoflush (bump_total_creations a s) = autoflush s"
  "commit_fault (bump_total_creations a s) = commit_fault s"
  "rollback_fault (bump_total_creations a s) = rollback_fault s"
  "committed (db_add r s) = committed s"
  "autoflush (db_add r s) = autoflush s"
  "commit_fault (db_add r s) = commit_fault s"
  "rollback_fault (db_add r s) = rollback_fault s"
  by (simp_all add: bump_total_creations_def db_add_def Let_def)

lemma index_content_fields:
  "committed (snd (snd (index_content c st s))) = committed s"
  "autoflush (snd (snd (index_content c st s))) = autoflush s"
  "commit_fault (snd (snd (index_content c st s))) = commit_fault s"
  "rollback_fault (snd (snd (index_content c st s))) = rollback_fault s"
proof -
  obtain d s1 where d: "duplicate_check c s = (d, s1)" by fastforce
  obtain g s2 where g: "get_or_create_agent (agent_id_external c) (agent_id_external c) s1 = (g, s2)"
    by fastforce
  have s1: "committed s1 = committed s" "autoflush s1 = autoflush s"
    "commit_fault s1 = commit_fault s" "rollback_fault s1 = rollback_fault s"
    using duplicate_check_fields[of c s] d by simp_all
  have s2: "committed s2 = committed s1" "autoflush s2 = autoflush s1"
    "commit_fault s2 = commit_fault s1" "rollback_fault s2 = rollback_fault s1"
    using get_or_create_agent_fields[of "agent_id_external c" "agent_id_external c" s1] g by simp_all
  show "committed (snd (snd (index_content c st s))) = committed s"
    "autoflush (snd (snd (index_content c st s))) = autoflush s"
    "commit_fault (snd (snd (index_content c st s))) = commit_fault s"
    "rollback_fault (snd (snd (index_content c st s))) = rollback_fault s"
    by (simp_all add: index_content_def d g s1 s2 Let_def split: sum.splits bool.splits)
qed

lemma process_item_fields:
  "committed (snd (process_item idx raw p)) = committed (snd p)"
  "autoflush (snd (process_item idx raw p)) = autoflush (snd p)"
  "commit_fault (snd (process_item idx raw p)) = commit_fault (snd p)"
  "rollback_fault (snd (process_item idx raw p)) = rollback_fault (snd p)"
proof -
  obtain st s where p: "p = (st, s)" by fastforce
  show "committed (snd (process_item idx raw p)) = committed (snd p)"
  "autoflush (snd (process_item idx raw p)) = autoflush (snd p)"
  "commit_fault (snd (process_item idx raw p)) = commit_fault (snd p)"
  "rollback_fault (snd (process_item idx raw p)) = rollback_fault (snd p)"
    using index_content_fields[of _ st s]
    by (auto simp add: process_item_def p split: sum.splits option.splits prod.splits
          dest!: arg_cong[where f="\<lambda>x. snd (snd x)"])
qed

lemma process_items_fields:
  "committed (snd (process_items idx raws p)) = committed (snd p)"
  "autoflush (snd (process_items idx raws p)) = autoflush (snd p)"
  "commit_fault (snd (process_items idx raws p)) = commit_fault (snd p)"
  "rollback_fault (snd (process_items idx raws p)) = rollback_fault (snd p)"
  by (induction raws arbitrary: p) (simp_all add: process_item_fields)

lemma filter_key_distinct:
  "distinct (map f xs) \<Longrightarrow> filter (\<lambda>x. f x = v) xs = [] \<or> (\<exists>x. filter (\<lambda>x. f x = v) xs = [x])"
proof (induction xs)
  case Nil
  then show ?case by simp
next
  case (Cons a xs)
  show ?case
  proof (cases "f a = v")
    case True
    with Cons.prems have "\<forall>x \<in> set xs. f x \<noteq> v" by (auto simp: image_iff)
    then have "filter (\<lambda>x. f x = v) xs = []" by (simp add: filter_empty_conv)
    with True show ?thesis by simp
  next
    case False
    with Cons show ?thesis by simp
  qed
qed

lemma visible_flush [simp]: "visible_contents (db_flush s) = visible_contents s"
  by (simp add: visible_contents_def)

lemma visible_before_query [simp]: "visible_contents (before_query s) = visible_contents s"
  by (simp add: before_query_def)

lemma txn_contents_visible: "set (contents (txn s)) \<subseteq> set (visible_contents s)"
  by (simp add: visible_contents_def)

lemma content_exists_rows:
  "visible_contents (snd (content_exists u s)) = visible_contents s"
  "agents (txn (snd (content_exists u s))) = agents (txn s)"
  by (simp_all add: content_exists_def Let_def split: sum.splits)

lemma content_exists_fresh:
  assumes "\<forall>r \<in> set (visible_contents s). source_url r \<noteq> Some u"
  shows "fst (content_exists u s) = Inr False"
proof -
  have "set (contents (txn (before_query s))) \<subseteq> set (visible_contents s)"
    using txn_contents_visible[of "before_query s"] by simp
  with assms have "filter (\<lambda>c. source_url c = Some u) (contents (txn (before_query s))) = []"
    by (auto simp: filter_empty_conv)
  then show ?thesis by (simp add: content_exists_def Let_def)
qed

lemma duplicate_check_rows:
  "visible_contents (snd (duplicate_check c s)) = visible_contents s"
  "agents (txn (snd (duplicate_check c s))) = agents (txn s)"
  by (simp_all add: duplicate_check_def content_exists_rows split: option.splits)

lemma duplicate_check_fresh:
  assumes "\<forall>r \<in> set (visible_contents s). source_url r \<noteq> source_url c"
  shows "fst (duplicate_check c s) = Inr False"
  using assms content_exists_fresh
  by (auto simp: duplicate_check_def split: option.splits)

lemma fold_max_ge: "x \<in> set xs \<Longrightarrow> x \<le> fold max xs (m::nat)"
proof (induction xs arbitrary: m)
  case Nil then show ?case by simp
next
  case (Cons a xs)
  have mono: "\<And>m. m \<le> fold max xs m" 
  proof -
    fix m show "m \<le> fold max xs (m::nat)"
      by (induction xs arbitrary: m) (auto intro: order_trans[OF max.cobounded2])
  qed
  show ?case
  proof (cases "x = a")
    case True
    then show ?thesis using mono[of "max a m"] by simp
  next
    case False
    with Cons show ?thesis by simp
  qed
qed

lemma fresh_pk_new: "a \<in> set rows \<Longrightarrow> agent_pk a \<noteq> fresh_pk rows"
  using fold_max_ge[of "agent_pk a" "map agent_pk rows" 0]
  by (auto simp: fresh_pk_def)

lemma get_agent_found:
  assumes "filter (\<lambda>a. agent_id a = aid) (agents (txn s)) = [a]"
  shows "get_or_create_agent aid nm s = (Inr a, before_query s)"
  using assms by (simp add: get_or_create_agent_def Let_def)

lemma get_agent_created:
  assumes "filter (\<lambda>a. agent_id a = aid) (agents (txn s)) = []"
  shows "get_or_create_agent aid nm s =
     (Inr \<lparr> agent_pk = fresh_pk (agents (txn s)), agent_id = aid, agent_name = nm, total_creations = Some 0 \<rparr>,
      db_flush ((before_query s)\<lparr> txn := (txn (before_query s))\<lparr> agents := agents (txn s) @
        [\<lparr> agent_pk = fresh_pk (agents (txn s)), agent_id = aid, agent_name = nm, total_creations = Some 0 \<rparr>] \<rparr> \<rparr>))"
  using assms by (simp add: get_or_create_agent_def Let_def)

section \<open>The catalog writer\<close>

lemma bump_rows [simp]:
  "visible_contents (bump_total_creations a s) = visible_contents s"
  "map agent_id (agents (txn (bump_total_creations a s))) = map agent_id (agents (txn s))"
  by (simp_all add: bump_total_creations_def visible_contents_def Let_def comp_def if_distrib)

lemma db_add_rows [simp]:
  "visible_contents (db_add r s) = visible_contents s @ [r]"
  "agents (txn (db_add r s)) = agents (txn s)"
  by (simp_all add: db_add_def visible_contents_def)

lemma index_content_SomeD:
  assumes "index_content c st s = (Some row, st', s')"
  shows "\<exists>s1 a s2. duplicate_check c s = (Inr False, s1)
           \<and> get_or_create_agent (agent_id_external c) (agent_id_external c) s1 = (Inr a, s2)
           \<and> row = new_agent_content c (agent_pk a)
           \<and> st' = st\<lparr> indexed := indexed st + 1 \<rparr>
           \<and> s' = bump_total_creations a (db_add row s2)"
proof -
  obtain d s1 where d: "duplicate_check c s = (d, s1)" by fastforce
  obtain g s2 where g: "get_or_create_agent (agent_id_external c) (agent_id_external c) s1 = (g, s2)"
    by fastforce
  show ?thesis using assms
    by (auto simp: index_content_def d g Let_def split: sum.splits bool.splits)
qed

lemma index_content_SomeI:
  assumes "duplicate_check c s = (Inr False, s1)"
    and "get_or_create_agent (agent_id_external c) (agent_id_external c) s1 = (Inr a, s2)"
  shows "index_content c st s =
           (Some (new_agent_content c (agent_pk a)), st\<lparr> indexed := indexed st + 1 \<rparr>,
            bump_total_creations a (db_add (new_agent_content c (agent_pk a)) s2))"
  using assms by (simp add: index_content_def Let_def)

lemma get_or_create_agent_ok:
  assumes "distinct (map agent_id (agents (txn s)))"
  shows "\<exists>a s'. get_or_create_agent aid nm s = (Inr a, s')
           \<and> visible_contents s' = visible_contents s
           \<and> distinct (map agent_id (agents (txn s')))"
proof -
  from filter_key_distinct[OF assms, of aid]
  consider "filter (\<lambda>a. agent_id a = aid) (agents (txn s)) = []"
    | a where "filter (\<lambda>a. agent_id a = aid) (agents (txn s)) = [a]" by blast
  then show ?thesis
  proof cases
    case 1
    then have "\<forall>a \<in> set (agents (txn s)). agent_id a \<noteq> aid"
      by (simp add: filter_empty_conv)
    with assms show ?thesis
      by (auto simp: get_agent_created[OF 1] visible_contents_def)
  next
    case 2
    with assms show ?thesis by (simp add: get_agent_found[OF 2])
  qed
qed

lemma index_content_written:
  assumes dist: "distinct (map agent_id (agents (txn s)))"
    and fresh: "\<forall>r \<in> set (visible_contents s). source_url r \<noteq> source_url c"
  shows "\<exists>k s'. index_content c st s =
             (Some (new_agent_content c k), st\<lparr> indexed := indexed st + 1 \<rparr>, s')
           \<and> visible_contents s' = visible_contents s @ [new_agent_content c k]
           \<and> distinct (map agent_id (agents (txn s')))"
proof -
  obtain d s1 where d: "duplicate_check c s = (d, s1)" by fastforce
  with duplicate_check_fresh[OF fresh] have d': "duplicate_check c s = (Inr False, s1)" by simp
  have s1: "visible_contents s1 = visible_contents s" "agents (txn s1) = agents (txn s)"
    using duplicate_check_rows[of c s] d by simp_all
  with dist have "distinct (map agent_id (agents (txn s1)))" by simp
  from get_or_create_agent_ok[OF this, of "agent_id_external c" "agent_id_external c"]
  obtain a s2 where g: "get_or_create_agent (agent_id_external c) (agent_id_external c) s1 = (Inr a, s2)"
    and s2: "visible_contents s2 = visible_contents s1" "distinct (map agent_id (agents (txn s2)))"
    by blast
  show ?thesis
    using index_content_SomeI[OF d' g, of st] s1 s2
    by (intro exI[of _ "agent_pk a"]
          exI[of _ "bump_total_creations a (db_add (new_agent_content c (agent_pk a)) s2)"]) simp
qed

section \<open>The run coordinator\<close>

lemma process_items_append:
  "process_items idx (xs @ ys) p = process_items idx ys (process_items idx xs p)"
  by (induction xs arbitrary: p) simp_all

lemma source_url_new [simp]: "source_url (new_agent_content c k) = source_url c"
  by (simp add: new_agent_content_def)

lemma process_item_parsed:
  "parse_content idx raw = Inr (Some c) \<Longrightarrow>
   process_item idx raw (st, s) = snd (index_content c st s)"
  by (simp add: process_item_def split: prod.splits)

lemma process_item_raised:
  "parse_content idx raw = Inl e \<Longrightarrow>
   process_item idx raw (st, s) = (st\<lparr> errors := errors st + 1 \<rparr>, s)"
  by (simp add: process_item_def)

lemma process_item_absent:
  "parse_content idx raw = Inr None \<Longrightarrow> process_item idx raw p = p"
  by (cases p) (simp add: process_item_def)

lemma process_items_written:
  assumes "list_all2 (\<lambda>raw c. parse_content idx raw = Inr (Some c)) raws cs"
    and "distinct (map source_url cs)"
    and "\<forall>c \<in> set cs. \<forall>r \<in> set (visible_contents s). source_url r \<noteq> source_url c"
    and "distinct (map agent_id (agents (txn s)))"
  shows "\<exists>ks s'. length ks = length cs
           \<and> process_items idx raws (st, s) = (st\<lparr> indexed := indexed st + length cs \<rparr>, s')
           \<and> visible_contents s' = visible_contents s @ map2 new_agent_content cs ks
           \<and> distinct (map agent_id (agents (txn s')))"
  using assms
proof (induction raws cs arbitrary: st s rule: list_all2_induct)
  case Nil
  then show ?case by simp
next
  case (Cons raw raws c cs)
  from Cons.prems have fresh_c: "\<forall>r \<in> set (visible_contents s). source_url r \<noteq> source_url c"
    by simp
  from index_content_written[OF Cons.prems(3) fresh_c, of st]
  obtain k s1 where w: "index_content c st s =
             (Some (new_agent_content c k), st\<lparr> indexed := indexed st + 1 \<rparr>, s1)"
    and v1: "visible_contents s1 = visible_contents s @ [new_agent_content c k]"
    and d1: "distinct (map agent_id (agents (txn s1)))" by blast
  have dcs: "distinct (map source_url cs)" using Cons.prems(1) by simp
  have fresh1: "\<forall>c' \<in> set cs. \<forall>r \<in> set (visible_contents s1). source_url r \<noteq> source_url c'"
    using Cons.prems(1,2) v1 by auto
  from Cons.IH[OF dcs fresh1 d1, of "st\<lparr> indexed := indexed st + 1 \<rparr>"]
  obtain ks s' where ks: "length ks = length cs"
    and p: "process_items idx raws (st\<lparr> indexed := indexed st + 1 \<rparr>, s1) =
              (st\<lparr> indexed := indexed st + 1, indexed := indexed st + 1 + length cs \<rparr>, s')"
    and v: "visible_contents s' = visible_contents s1 @ map2 new_agent_content cs ks"
    and d: "distinct (map agent_id (agents (txn s')))" by auto
  show ?case
    using Cons.hyps(1) w ks p v v1 d
    by (intro exI[of _ "k # ks"] exI[of _ s']) (simp add: process_item_parsed)
qed

lemma get_or_create_agent_raised:
  "get_or_create_agent aid nm s = (Inl e, s') \<Longrightarrow>
   agents (txn s') = agents (txn s) \<and> visible_contents s' = visible_contents s"
  by (auto simp: get_or_create_agent_def Let_def split: sum.splits option.splits)

lemma index_content_raised:
  assumes "upsert_raises c s"
  shows "\<exists>s'. index_content c st s = (None, st\<lparr> errors := errors st + 1 \<rparr>, s')
          \<and> committed s' = committed s \<and> agents (txn s') = agents (txn s)
          \<and> visible_contents s' = visible_contents s"
proof -
  obtain d s1 where d: "duplicate_check c s = (d, s1)" by fastforce
  obtain g s2 where g: "get_or_create_agent (agent_id_external c) (agent_id_external c) s1 = (g, s2)"
    by fastforce
  have s1: "committed s1 = committed s" "agents (txn s1) = agents (txn s)"
    "visible_contents s1 = visible_contents s"
    using duplicate_check_fields(1)[of c s] duplicate_check_rows[of c s] d by simp_all
  have s2: "committed s2 = committed s1"
    using get_or_create_agent_fields(1)[of "agent_id_external c" "agent_id_external c" s1] g by simp
  have s2': "isl g \<Longrightarrow> agents (txn s2) = agents (txn s1) \<and> visible_contents s2 = visible_contents s1"
    using get_or_create_agent_raised g by (cases g) auto
  show ?thesis
    using assms s1 s2 s2'
    by (auto simp: upsert_raises_def index_content_def d g split: sum.splits bool.splits)
qed

lemma committed_contents_after_commit:
  "commit_fault s = None \<Longrightarrow>
   db_commit s = (Inr (), (db_flush s)\<lparr> committed := txn (db_flush s) \<rparr>)"
  by (simp add: db_commit_def Let_def)

lemma visible_open [simp]: "visible_contents (open_session af cf rf db) = contents db"
  by (simp add: visible_contents_def open_session_def)

lemma open_session_fields [simp]:
  "txn (open_session af cf rf db) = db"
  "committed (open_session af cf rf db) = db"
  "pending (open_session af cf rf db) = []"
  "commit_fault (open_session af cf rf db) = cf"
  "rollback_fault (open_session af cf rf db) = rf"
  "autoflush (open_session af cf rf db) = af"
  by (simp_all add: open_session_def)

text \<open>
  Claim C2. An exception raised while one record is normalized or upserted is caught, adds
  exactly one to the error counter, and the loop goes on with the next record. In
  particular, when the fetch returns five records of which the third makes the normalizer
  raise, and the other four are items with four different addresses that the catalog does
  not hold yet, the run returns indexed 4, skipped 0, errors 1 and the four rows are
  committed.
\<close>

theorem partial_failure_isolation:
  "(parse_content idx raw = Inl e \<longrightarrow>
      process_items idx (raw # rest) (st, s) =
      process_items idx rest (st\<lparr> errors := errors st + 1 \<rparr>, s))
   \<and> (parse_content idx raw = Inr (Some c) \<and> upsert_raises c s \<longrightarrow>
        (\<exists>s'. process_items idx (raw # rest) (st, s) =
                process_items idx rest (st\<lparr> errors := errors st + 1 \<rparr>, s')
              \<and> committed s' = committed s \<and> agents (txn s') = agents (txn s)
              \<and> visible_contents s' = visible_contents s))
   \<and> (fetch_content idx since limit = Inr [r1, r2, r3, r4, r5]
        \<and> parse_content idx r1 = Inr (Some c1) \<and> parse_content idx r2 = Inr (Some c2)
        \<and> parse_content idx r3 = Inl e3
        \<and> parse_content idx r4 = Inr (Some c4) \<and> parse_content idx r5 = Inr (Some c5)
        \<and> distinct (map source_url [c1, c2, c4, c5])
        \<and> (\<forall>c \<in> set [c1, c2, c4, c5]. \<forall>r \<in> set (contents db). source_url r \<noteq> source_url c)
        \<and> distinct (map agent_id (agents db)) \<longrightarrow>
        (\<exists>k1 k2 k4 k5 s'.
            run idx since limit init_stats (open_session af None rf db) =
              (Inr \<lparr> indexed = 4, skipped = 0, errors = 1 \<rparr>, s')
          \<and> contents (committed s') =
              contents db @ [new_agent_content c1 k1, new_agent_content c2 k2,
                             new_agent_content c4 k4, new_agent_content c5 k5]))"
proof (intro conjI impI)
  assume "parse_content idx raw = Inl e"
  then show "process_items idx (raw # rest) (st, s) =
      process_items idx rest (st\<lparr> errors := errors st + 1 \<rparr>, s)"
    by (simp add: process_item_raised)
next
  assume a: "parse_content idx raw = Inr (Some c) \<and> upsert_raises c s"
  from index_content_raised[of c s st] a
  obtain s' where "index_content c st s = (None, st\<lparr> errors := errors st + 1 \<rparr>, s')"
    and "committed s' = committed s" "agents (txn s') = agents (txn s)"
    "visible_contents s' = visible_contents s" by blast
  with a show "\<exists>s'. process_items idx (raw # rest) (st, s) =
                process_items idx rest (st\<lparr> errors := errors st + 1 \<rparr>, s')
              \<and> committed s' = committed s \<and> agents (txn s') = agents (txn s)
              \<and> visible_contents s' = visible_contents s"
    by (intro exI[of _ s']) (simp add: process_item_parsed)
next
  assume a: "fetch_content idx since limit = Inr [r1, r2, r3, r4, r5]
        \<and> parse_content idx r1 = Inr (Some c1) \<and> parse_content idx r2 = Inr (Some c2)
        \<and> parse_content idx r3 = Inl e3
        \<and> parse_content idx r4 = Inr (Some c4) \<and> parse_content idx r5 = Inr (Some c5)
        \<and> distinct (map source_url [c1, c2, c4, c5])
        \<and> (\<forall>c \<in> set [c1, c2, c4, c5]. \<forall>r \<in> set (contents db). source_url r \<noteq> source_url c)
        \<and> distinct (map agent_id (agents db))"
  let ?s0 = "open_session af None rf db"
  have first: "list_all2 (\<lambda>raw c. parse_content idx raw = Inr (Some c)) [r1, r2] [c1, c2]"
    using a by simp
  have "\<exists>ks s1. length ks = length [c1, c2]
           \<and> process_items idx [r1, r2] (init_stats, ?s0) =
               (init_stats\<lparr> indexed := indexed init_stats + length [c1, c2] \<rparr>, s1)
           \<and> visible_contents s1 = visible_contents ?s0 @ map2 new_agent_content [c1, c2] ks
           \<and> distinct (map agent_id (agents (txn s1)))"
    using a by (intro process_items_written[OF first]) auto
  then obtain ks s1 where ks: "length ks = length [c1, c2]"
    and p1': "process_items idx [r1, r2] (init_stats, ?s0) =
               (init_stats\<lparr> indexed := indexed init_stats + length [c1, c2] \<rparr>, s1)"
    and v1': "visible_contents s1 = visible_contents ?s0 @ map2 new_agent_content [c1, c2] ks"
    and d1: "distinct (map agent_id (agents (txn s1)))"
    by blast
  have p1: "process_items idx [r1, r2] (init_stats, ?s0) = (init_stats\<lparr> indexed := 2 \<rparr>, s1)"
    using p1' by (simp add: init_stats_def del: process_items.simps)
  have v1: "visible_contents s1 = contents db @ map2 new_agent_content [c1, c2] ks"
    using v1' by simp
  from ks obtain k1 k2 where ks': "ks = [k1, k2]"
    by (cases ks; cases "tl ks") auto
  let ?st2 = "init_stats\<lparr> indexed := 2, errors := 1 \<rparr>"
  have second: "list_all2 (\<lambda>raw c. parse_content idx raw = Inr (Some c)) [r4, r5] [c4, c5]"
    using a by simp
  have "\<exists>ks s2. length ks = length [c4, c5]
           \<and> process_items idx [r4, r5] (?st2, s1) =
               (?st2\<lparr> indexed := indexed ?st2 + length [c4, c5] \<rparr>, s2)
           \<and> visible_contents s2 = visible_contents s1 @ map2 new_agent_content [c4, c5] ks
           \<and> distinct (map agent_id (agents (txn s2)))"
    using a v1 ks' d1 by (intro process_items_written[OF second]) auto
  then obtain ks2 s2 where ks2: "length ks2 = length [c4, c5]"
    and p2': "process_items idx [r4, r5] (?st2, s1) =
               (?st2\<lparr> indexed := indexed ?st2 + length [c4, c5] \<rparr>, s2)"
    and v2: "visible_contents s2 = visible_contents s1 @ map2 new_agent_content [c4, c5] ks2"
    by blast
  have p2: "process_items idx [r4, r5] (?st2, s1) =
               (\<lparr> indexed = 4, skipped = 0, errors = 1 \<rparr>, s2)"
    using p2' by (simp add: init_stats_def del: process_items.simps)
  from ks2 obtain k4 k5 where ks2': "ks2 = [k4, k5]"
    by (cases ks2; cases "tl ks2") auto
  have r3: "process_item idx r3 (init_stats\<lparr> indexed := 2 \<rparr>, s1) = (?st2, s1)"
    using a by (simp add: process_item_raised init_stats_def)
  have "process_items idx ([r1, r2] @ r3 # [r4, r5]) (init_stats, ?s0) =
          process_items idx [r4, r5] (process_item idx r3 (process_items idx [r1, r2] (init_stats, ?s0)))"
    by (simp only: process_items_append process_items.simps)
  then have "process_items idx ([r1, r2] @ r3 # [r4, r5]) (init_stats, ?s0) =
          (\<lparr> indexed = 4, skipped = 0, errors = 1 \<rparr>, s2)"
    by (simp only: p1 r3 p2)
  then have all: "process_items idx [r1, r2, r3, r4, r5] (init_stats, ?s0) =
          (\<lparr> indexed = 4, skipped = 0, errors = 1 \<rparr>, s2)" by simp
  have cf: "commit_fault s2 = None"
    using process_items_fields(3)[of idx "[r1, r2, r3, r4, r5]" "(init_stats, ?s0)"] all
    by (simp del: process_items.simps)
  let ?s' = "(db_flush s2)\<lparr> committed := txn (db_flush s2) \<rparr>"
  have run: "run idx since limit init_stats ?s0 = (Inr \<lparr> indexed = 4, skipped = 0, errors = 1 \<rparr>, ?s')"
    using a all committed_contents_after_commit[OF cf] by (simp add: run_def del: process_items.simps)
  have "contents (committed ?s') = visible_contents s2"
    by (simp add: visible_contents_def)
  with v1 v2 ks' ks2' have "contents (committed ?s') =
              contents db @ [new_agent_content c1 k1, new_agent_content c2 k2,
                             new_agent_content c4 k4, new_agent_content c5 k5]" by simp
  with run show "\<exists>k1 k2 k4 k5 s'.
            run idx since limit init_stats (open_session af None rf db) =
              (Inr \<lparr> indexed = 4, skipped = 0, errors = 1 \<rparr>, s')
          \<and> contents (committed s') =
              contents db @ [new_agent_content c1 k1, new_agent_content c2 k2,
                             new_agent_content c4 k4, new_agent_content c5 k5]"
    by blast
qed

lemmas eval_defs = index_content_def duplicate_check_def content_exists_def before_query_def db_flush_def
  get_or_create_agent_def fresh_pk_def bump_total_creations_def db_add_def new_agent_content_def
  open_session_def example_item_def empty_store_def Let_def visible_contents_def

theorem partial_failure_isolation_witness:
  "process_items batch_of_five [3, 4] (init_stats, duplicated_session) =
     process_items batch_of_five [4] (init_stats\<lparr> errors := 1 \<rparr>, duplicated_session)
   \<and> upsert_raises (example_item ''a:bot'' ''https://example.org/a'') duplicated_session
   \<and> fst (process_items (single_collector ''a'') [0] (init_stats, duplicated_session)) =
       init_stats\<lparr> errors := 1 \<rparr>
   \<and> fst (run batch_of_five None 10 init_stats (open_session True None None empty_store)) =
       Inr \<lparr> indexed = 4, skipped = 0, errors = 1 \<rparr>
   \<and> map source_url (contents (committed (snd
         (run batch_of_five None 10 init_stats (open_session True None None empty_store))))) =
       [Some ''https://example.org/1'', Some ''https://example.org/2'',
        Some ''https://example.org/4'', Some ''https://example.org/5'']"
proof -
  have raises: "upsert_raises (example_item ''a:bot'' ''https://example.org/a'') duplicated_session"
    by (simp add: upsert_raises_def duplicated_session_def MultipleResultsFound_def eval_defs)
  have parsed: "parse_content (single_collector ''a'') 0 =
      Inr (Some (example_item ''a:bot'' ''https://example.org/a''))"
    by (simp add: single_collector_def)
  note a = partial_failure_isolation[where idx = batch_of_five and raw = 3
      and e = "Raised ''malformed record''" and rest = "[4]" and st = init_stats
      and s = duplicated_session and ?r1.0 = 1 and ?r2.0 = 2 and ?r3.0 = 3 and ?r4.0 = 4 and ?r5.0 = 5
      and ?c1.0 = "example_item ''web:example.org'' (example_url 1)"
      and ?c2.0 = "example_item ''web:example.org'' (example_url 2)"
      and ?c4.0 = "example_item ''web:example.org'' (example_url 4)"
      and ?c5.0 = "example_item ''web:example.org'' (example_url 5)"
      and ?e3.0 = "Raised ''malformed record''" and since = None and limit = 10
      and db = empty_store and af = True and rf = None]
  note b = partial_failure_isolation[where idx = "single_collector ''a''" and raw = 0
      and c = "example_item ''a:bot'' ''https://example.org/a''" and rest = "[]"
      and st = init_stats and s = duplicated_session]
  have A: "process_items batch_of_five [3, 4] (init_stats, duplicated_session) =
     process_items batch_of_five [4] (init_stats\<lparr> errors := 1 \<rparr>, duplicated_session)"
    using a[THEN conjunct1] by (simp add: batch_of_five_def init_stats_def del: process_items.simps)
  have B: "fst (process_items (single_collector ''a'') [0] (init_stats, duplicated_session)) =
       init_stats\<lparr> errors := 1 \<rparr>"
  proof -
    from b[THEN conjunct2, THEN conjunct1] raises parsed
    obtain s' where "process_items (single_collector ''a'') [0] (init_stats, duplicated_session) =
        process_items (single_collector ''a'') [] (init_stats\<lparr> errors := errors init_stats + 1 \<rparr>, s')"
      by blast
    then show ?thesis by (simp add: init_stats_def del: process_items.simps(2))
  qed
  have "\<exists>k1 k2 k4 k5 s'.
            run batch_of_five None 10 init_stats (open_session True None None empty_store) =
              (Inr \<lparr> indexed = 4, skipped = 0, errors = 1 \<rparr>, s')
          \<and> contents (committed s') =
              contents empty_store @
                [new_agent_content (example_item ''web:example.org'' (example_url 1)) k1,
                 new_agent_content (example_item ''web:example.org'' (example_url 2)) k2,
                 new_agent_content (example_item ''web:example.org'' (example_url 4)) k4,
                 new_agent_content (example_item ''web:example.org'' (example_url 5)) k5]"
    using a[THEN conjunct2, THEN conjunct2]
    by (simp add: batch_of_five_def example_item_def example_url_def empty_store_def)
  then have C: "fst (run batch_of_five None 10 init_stats (open_session True None None empty_store)) =
       Inr \<lparr> indexed = 4, skipped = 0, errors = 1 \<rparr>
   \<and> map source_url (contents (committed (snd
         (run batch_of_five None 10 init_stats (open_session True None None empty_store))))) =
       [Some ''https://example.org/1'', Some ''https://example.org/2'',
        Some ''https://example.org/4'', Some ''https://example.org/5'']"
    by (auto simp: example_item_def example_url_def empty_store_def)
  from A raises B C show ?thesis by blast
qed

lemma run_fetch_raised:
  "fetch_content idx since limit = Inl e \<Longrightarrow> rollback_fault s = None \<Longrightarrow>
   run idx since limit st s = (Inr st, s\<lparr> txn := committed s, pending := [] \<rparr>)"
  by (simp add: run_def run_failed_def db_rollback_def)

lemma run_commit_raised:
  assumes "fetch_content idx since limit = Inr raws" and "commit_fault s = Some e"
    and "rollback_fault s = None"
  shows "\<exists>s1. run idx since limit st s = (Inr (fst (process_items idx raws (st, s))), s1)
          \<and> txn s1 = committed s \<and> pending s1 = [] \<and> committed s1 = committed s"
proof -
  obtain st1 s1 where p: "process_items idx raws (st, s) = (st1, s1)" by fastforce
  have f: "rollback_fault s1 = None" "commit_fault s1 = Some e" "committed s1 = committed s"
    using process_items_fields[of idx raws "(st, s)"] p assms by simp_all
  show ?thesis using assms(1) p f
    by (simp add: run_def run_failed_def db_rollback_def db_commit_def)
qed

lemma run_returns:
  assumes "rollback_fault s = None"
  shows "\<exists>st'. fst (run idx since limit st s) = Inr st'"
proof (cases "fetch_content idx since limit")
  case (Inl e)
  then show ?thesis using assms by (simp add: run_fetch_raised)
next
  case (Inr raws)
  obtain st1 s1 where p: "process_items idx raws (st, s) = (st1, s1)" by fastforce
  have rf: "rollback_fault s1 = None"
    using process_items_fields(4)[of idx raws "(st, s)"] p assms by simp
  show ?thesis using Inr p rf
    by (simp add: run_def run_failed_def db_rollback_def db_commit_def Let_def split: option.splits)
qed

lemma run_indexer_returns_stats:
  assumes "platform \<in> set known_platforms" and "session_fault (envs platform) = None"
    and "env_rollback_fault (envs platform) = None"
  shows "\<exists>st' w'. run_indexer af envs platform limit w = (Inr (Stats st'), w')"
proof -
  let ?s = "open_session af (env_commit_fault (envs platform)) (env_rollback_fault (envs platform)) (database w)"
  have "rollback_fault ?s = None" using assms(3) by simp
  from run_returns[OF this, of "collector (envs platform)" "last_run w platform" limit init_stats]
  obtain st' where "fst (run (collector (envs platform)) (last_run w platform) limit init_stats ?s) = Inr st'"
    by blast
  then obtain db' where "run (collector (envs platform)) (last_run w platform) limit init_stats ?s = (Inr st', db')"
    by (cases "run (collector (envs platform)) (last_run w platform) limit init_stats ?s") auto
  then show ?thesis using assms(1,2)
    by (simp add: run_indexer_def get_indexer_def Let_def)
qed

lemma run_raises_only_rollback:
  assumes "fst (run idx since limit st s) = Inl e"
  shows "rollback_fault s = Some e"
proof (cases "rollback_fault s")
  case None
  from run_returns[OF this, of idx since limit st] assms show ?thesis by auto
next
  case (Some e')
  show ?thesis
  proof (cases "fetch_content idx since limit")
    case (Inl x)
    with assms Some show ?thesis by (simp add: run_def run_failed_def db_rollback_def)
  next
    case (Inr raws)
    obtain st1 s1 where p: "process_items idx raws (st, s) = (st1, s1)" by fastforce
    have rf: "rollback_fault s1 = Some e'"
      using process_items_fields(4)[of idx raws "(st, s)"] p Some by simp
    show ?thesis using assms Inr p rf Some
      by (auto simp: run_def run_failed_def db_rollback_def db_commit_def Let_def
            split: option.splits)
  qed
qed

text \<open>
  Claim C9, as the code has it. \<^verbatim>\<open>BaseIndexer.run\<close> catches every exception of
  \<^verbatim>\<open>fetch_content\<close>, \<^verbatim>\<open>parse_content\<close>, \<^verbatim>\<open>index_content\<close> and \<^verbatim>\<open>commit\<close>, and rolls back
  when the fetch or the commit has failed. When that \<^verbatim>\<open>rollback\<close> does not raise, \<^verbatim>\<open>run\<close>
  returns the counters; the only exception that ever leaves \<^verbatim>\<open>run\<close> is one raised by
  \<^verbatim>\<open>rollback\<close>. So \<^verbatim>\<open>run_indexer\<close> returns statistics, not its \<^verbatim>\<open>{"error": ...}\<close> payload,
  for every known platform whose session opens and rolls back without a fault.
\<close>

theorem run_total:
  "(rollback_fault s = None \<longrightarrow>
      (\<exists>st'. fst (run idx since limit st s) = Inr st')
      \<and> (\<forall>e. fetch_content idx since limit = Inl e \<longrightarrow>
             run idx since limit st s = (Inr st, s\<lparr> txn := committed s, pending := [] \<rparr>))
      \<and> (\<forall>raws e. fetch_content idx since limit = Inr raws \<and> commit_fault s = Some e \<longrightarrow>
             (\<exists>s1. run idx since limit st s = (Inr (fst (process_items idx raws (st, s))), s1)
                  \<and> txn s1 = committed s \<and> pending s1 = [] \<and> committed s1 = committed s)))
   \<and> (\<forall>e. fst (run idx since limit st s) = Inl e \<longrightarrow> rollback_fault s = Some e)
   \<and> (platform \<in> set known_platforms \<and> session_fault (envs platform) = None
        \<and> env_rollback_fault (envs platform) = None \<longrightarrow>
        (\<exists>st' w'. run_indexer af envs platform limit w = (Inr (Stats st'), w')))"
  using run_returns[of s idx since limit st] run_fetch_raised[of idx since limit _ s st]
    run_commit_raised[of idx since limit _ s _ st]
    run_raises_only_rollback[of idx since limit st s]
    run_indexer_returns_stats[of platform envs af limit w]
  by blast

theorem run_total_witness:
  "rollback_fault (open_session True None None empty_store) = None
   \<and> fetch_content failing_collector None 10 = Inl (Raised ''upstream unavailable'')
   \<and> run failing_collector None 10 init_stats (open_session True None None empty_store) =
       (Inr init_stats, open_session True None None empty_store)
   \<and> ''reddit'' \<in> set known_platforms
   \<and> (\<exists>st' w'. run_indexer True (outage_envs ''reddit'') ''reddit'' 10 world0 = (Inr (Stats st'), w'))"
  using run_total[of "open_session True None None empty_store" failing_collector None 10 init_stats
          "''reddit''" "outage_envs ''reddit''" True world0]
  by (simp add: open_session_def failing_collector_def known_platforms_def outage_envs_def)

text \<open>
  Claim C9 as stated fails when \<^verbatim>\<open>rollback()\<close> raises too, as it does on a lost database
  connection: the handler of \<^verbatim>\<open>run\<close> calls it outside any \<^verbatim>\<open>try\<close>, so after a failed
  fetch, or a failed commit, the exception of the rollback leaves \<^verbatim>\<open>run\<close>, and
  \<^verbatim>\<open>run_indexer\<close> returns its \<^verbatim>\<open>{"error": ...}\<close> payload and leaves the watermark alone.
\<close>

theorem run_propagates_rollback_failure:
  "fst (run failing_collector None 10 init_stats
          (open_session True None (Some (Raised ''connection lost'')) empty_store)) =
     Inl (Raised ''connection lost'')
   \<and> fst (run_indexer True (lost_connection failing_collector) ''reddit'' 10 world0) =
     Inr (Error ''connection lost'')
   \<and> fst (run_indexer True (lost_connection (single_collector ''reddit'')) ''reddit'' 10 world0) =
     Inr (Error ''connection lost'')
   \<and> last_run (snd (run_indexer True (lost_connection failing_collector) ''reddit'' 10 world0))
       ''reddit'' = Some 100"
  by (simp add: run_indexer_def get_indexer_def known_platforms_def run_def run_failed_def
        db_rollback_def db_commit_def process_item_def lost_connection_def failing_collector_def
        single_collector_def world0_def init_stats_def eval_defs)

lemma process_items_parse_cong:
  "parse_content idx' = parse_content idx \<Longrightarrow> process_items idx' raws p = process_items idx raws p"
  by (induction raws arbitrary: p) (simp_all add: process_item_def)

lemma process_items_skip_absent:
  "parse_content idx raw = Inr None \<Longrightarrow>
   process_items idx (pre @ raw # post) p = process_items idx (pre @ post) p"
  by (simp add: process_items_append process_item_absent)

lemma websearch_parse_absent:
  assumes "\<not> has_field d ''url'' \<or> \<not> has_field d ''title''"
  shows "websearch_parse_content lib (JObj d) = Inr None"
proof (cases "d = []")
  case True
  then show ?thesis by (simp add: websearch_parse_content_def)
next
  case False
  have "\<not> truthy (case map_of d ''url'' of None \<Rightarrow> JStr [] | Some v \<Rightarrow> v)
        \<or> \<not> truthy (case map_of d ''title'' of None \<Rightarrow> JStr [] | Some v \<Rightarrow> v)"
    using assms by (auto simp: has_field_def split: option.splits)
  then show ?thesis using False
    by (auto simp: websearch_parse_content_def)
qed

text \<open>
  Claim C8. A raw record for which the normalizer returns \<^verbatim>\<open>None\<close> changes none of the
  counters indexed, skipped and errors (nor the session): the run is the one that would
  have taken place had the record not been fetched. The web search normalizer returns
  \<^verbatim>\<open>None\<close> for a record without a truthy \<^verbatim>\<open>url\<close> or without a truthy \<^verbatim>\<open>title\<close>.
\<close>

theorem absent_record_not_counted:
  "(parse_content idx raw = Inr None \<longrightarrow>
      process_item idx raw (st, s) = (st, s)
      \<and> process_items idx (pre @ raw # post) (st, s) = process_items idx (pre @ post) (st, s)
      \<and> (fetch_content idx since limit = Inr (pre @ raw # post)
           \<and> fetch_content idx' since limit = Inr (pre @ post)
           \<and> parse_content idx' = parse_content idx \<longrightarrow>
           run idx since limit st s = run idx' since limit st s))
   \<and> (\<not> has_field d ''url'' \<or> \<not> has_field d ''title'' \<longrightarrow>
        websearch_parse_content lib (JObj d) = Inr None)"
proof (intro conjI impI)
  assume a: "parse_content idx raw = Inr None"
  show "process_item idx raw (st, s) = (st, s)" using a by (rule process_item_absent)
  show "process_items idx (pre @ raw # post) (st, s) = process_items idx (pre @ post) (st, s)"
    using a by (rule process_items_skip_absent)
  assume b: "fetch_content idx since limit = Inr (pre @ raw # post)
           \<and> fetch_content idx' since limit = Inr (pre @ post)
           \<and> parse_content idx' = parse_content idx"
  then have "process_items idx' (pre @ post) (st, s) = process_items idx (pre @ raw # post) (st, s)"
    using process_items_parse_cong[of idx' idx] process_items_skip_absent[OF a] by simp
  with b show "run idx since limit st s = run idx' since limit st s"
    by (simp add: run_def)
next
  assume "\<not> has_field d ''url'' \<or> \<not> has_field d ''title''"
  then show "websearch_parse_content lib (JObj d) = Inr None" by (rule websearch_parse_absent)
qed

theorem absent_record_not_counted_witness:
  "websearch_parse_content example_lib (JObj [(''description'', JStr ''neither title nor address'')]) = Inr None
   \<and> process_item (websearch_indexer example_lib no_network)
        (JObj [(''description'', JStr ''neither title nor address'')])
        (init_stats, open_session True None None empty_store) =
       (init_stats, open_session True None None empty_store)"
  using absent_record_not_counted[of "websearch_indexer example_lib no_network"
      "JObj [(''description'', JStr ''neither title nor address'')]"
      init_stats "open_session True None None empty_store" "[]" "[]" None 10
      "websearch_indexer example_lib no_network"
      "[(''description'', JStr ''neither title nor address'')]" example_lib]
  by (simp add: has_field_def websearch_indexer_def)

text \<open>
  Claim C1, at a concrete input. The watermark of \<^verbatim>\<open>reddit\<close> is 100 and the fetch of its
  collector raises: \<^verbatim>\<open>run_indexer\<close> returns the plain counters (all zero) with no error
  tag, and the watermark is moved to the clock's reading, 200.
\<close>

theorem fetch_failure_advances_watermark:
  "fst (run_indexer True (outage_envs ''reddit'') ''reddit'' 10 world0) = Inr (Stats init_stats)
   \<and> last_run world0 ''reddit'' = Some 100
   \<and> last_run (snd (run_indexer True (outage_envs ''reddit'') ''reddit'' 10 world0)) ''reddit'' = Some 200"
  by (simp add: run_indexer_def outage_envs_def get_indexer_def known_platforms_def run_def
        failing_collector_def run_failed_def db_rollback_def open_session_def world0_def Let_def)

lemma duplicate_check_found:
  assumes "source_url c = Some u" and "u \<noteq> []"
    and "filter (\<lambda>r. source_url r = Some u) (contents (txn (before_query s))) = [r]"
  shows "duplicate_check c s = (Inr True, before_query s)"
  using assms by (simp add: duplicate_check_def content_exists_def Let_def)

lemma index_content_duplicate:
  assumes "source_url c = Some u" and "u \<noteq> []"
    and "filter (\<lambda>r. source_url r = Some u) (contents (txn (before_query s))) = [r]"
  shows "index_content c st s = (None, st\<lparr> skipped := skipped st + 1 \<rparr>, before_query s)"
  using duplicate_check_found[OF assms] by (simp add: index_content_def)

lemma duplicate_check_FalseD:
  assumes "duplicate_check c s = (Inr False, s1)" and "source_url c = Some u" and "u \<noteq> []"
  shows "s1 = before_query s
         \<and> filter (\<lambda>r. source_url r = Some u) (contents (txn (before_query s))) = []"
proof -
  have ce: "content_exists u s = (Inr False, s1)"
    using assms by (simp add: duplicate_check_def)
  show ?thesis
  proof (cases "filter (\<lambda>r. source_url r = Some u) (contents (txn (before_query s)))")
    case Nil
    with ce show ?thesis by (simp add: content_exists_def Let_def)
  next
    case (Cons x xs)
    with ce show ?thesis
      by (cases xs) (simp_all add: content_exists_def Let_def)
  qed
qed

lemma before_query_autoflush:
  "autoflush s \<Longrightarrow> contents (txn (before_query s)) = visible_contents s"
  by (simp add: before_query_def visible_contents_def)

lemma get_or_create_agent_rows:
  "get_or_create_agent aid nm s = (g, s') \<Longrightarrow>
   visible_contents s' = visible_contents s \<and> autoflush s' = autoflush s"
  by (auto simp: get_or_create_agent_def Let_def visible_contents_def
        split: sum.splits option.splits)

lemma bump_autoflush [simp]: "autoflush (bump_total_creations a s) = autoflush s"
  by (simp add: bump_total_creations_def Let_def)

lemma index_content_twice_in_session:
  assumes af: "autoflush s" and url: "source_url c = Some u" "u \<noteq> []"
    and w: "index_content c st s = (Some row, st1, s1)"
  shows "index_content c st1 s1 = (None, st1\<lparr> skipped := skipped st1 + 1 \<rparr>, before_query s1)"
proof -
  from index_content_SomeD[OF w] obtain d1 a s2 where
    d: "duplicate_check c s = (Inr False, d1)"
    and g: "get_or_create_agent (agent_id_external c) (agent_id_external c) d1 = (Inr a, s2)"
    and row: "row = new_agent_content c (agent_pk a)"
    and s1: "s1 = bump_total_creations a (db_add row s2)" by blast
  from duplicate_check_FalseD[OF d url] have d1: "d1 = before_query s"
    and none: "filter (\<lambda>r. source_url r = Some u) (contents (txn (before_query s))) = []"
    by simp_all
  from none af have none': "filter (\<lambda>r. source_url r = Some u) (visible_contents s) = []"
    by (simp add: before_query_autoflush)
  from get_or_create_agent_rows[OF g] d1 af
  have s2: "visible_contents s2 = visible_contents s" "autoflush s2" by simp_all
  have af1: "autoflush s1" using s1 s2 by (simp add: db_add_def)
  have "visible_contents s1 = visible_contents s @ [row]" using s1 s2 by simp
  with none' url row have "filter (\<lambda>r. source_url r = Some u) (visible_contents s1) = [row]"
    by simp
  with af1 have "filter (\<lambda>r. source_url r = Some u) (contents (txn (before_query s1))) = [row]"
    by (simp add: before_query_autoflush)
  from index_content_duplicate[OF url this] show ?thesis .
qed

lemma run_single_written:
  assumes f: "fetch_content idx since limit = Inr [raw]"
    and p: "parse_content idx raw = Inr (Some c)"
    and dist: "distinct (map agent_id (agents db))"
    and fresh: "\<forall>r \<in> set (contents db). source_url r \<noteq> source_url c"
  shows "\<exists>k s'. run idx since limit init_stats (open_session af None rf db) =
                  (Inr \<lparr> indexed = 1, skipped = 0, errors = 0 \<rparr>, s')
           \<and> contents (committed s') = contents db @ [new_agent_content c k]
           \<and> distinct (map agent_id (agents (committed s')))"
proof -
  let ?s0 = "open_session af None rf db"
  have "\<exists>k s1. index_content c init_stats ?s0 =
             (Some (new_agent_content c k), init_stats\<lparr> indexed := indexed init_stats + 1 \<rparr>, s1)
           \<and> visible_contents s1 = visible_contents ?s0 @ [new_agent_content c k]
           \<and> distinct (map agent_id (agents (txn s1)))"
    using dist fresh by (intro index_content_written) simp_all
  then obtain k s1 where w: "index_content c init_stats ?s0 =
             (Some (new_agent_content c k), init_stats\<lparr> indexed := indexed init_stats + 1 \<rparr>, s1)"
    and v: "visible_contents s1 = contents db @ [new_agent_content c k]"
    and d: "distinct (map agent_id (agents (txn s1)))" by auto
  have cf: "commit_fault s1 = None"
    using index_content_fields(3)[of c init_stats ?s0] w by simp
  let ?s' = "(db_flush s1)\<lparr> committed := txn (db_flush s1) \<rparr>"
  have "run idx since limit init_stats ?s0 = (Inr \<lparr> indexed = 1, skipped = 0, errors = 0 \<rparr>, ?s')"
    using f p w committed_contents_after_commit[OF cf]
    by (simp add: run_def process_item_parsed init_stats_def)
  moreover have "contents (committed ?s') = contents db @ [new_agent_content c k]"
    using v by (simp add: visible_contents_def)
  moreover have "distinct (map agent_id (agents (committed ?s')))" using d by simp
  ultimately show ?thesis by blast
qed

lemma run_single_duplicate:
  assumes f: "fetch_content idx since limit = Inr [raw]"
    and p: "parse_content idx raw = Inr (Some c)"
    and url: "source_url c = Some u" "u \<noteq> []"
    and one: "filter (\<lambda>r. source_url r = Some u) (contents db) = [r]"
  shows "\<exists>s'. run idx since limit init_stats (open_session af None rf db) =
                  (Inr \<lparr> indexed = 0, skipped = 1, errors = 0 \<rparr>, s')
           \<and> committed s' = db"
proof -
  let ?s0 = "open_session af None rf db"
  have bq: "before_query ?s0 = ?s0"
    by (simp add: before_query_def db_flush_def open_session_def)
  have "filter (\<lambda>r. source_url r = Some u) (contents (txn (before_query ?s0))) = [r]"
    using one by (simp add: bq)
  from index_content_duplicate[OF url this, of init_stats]
  have w: "index_content c init_stats ?s0 =
             (None, init_stats\<lparr> skipped := skipped init_stats + 1 \<rparr>, ?s0)"
    by (simp add: bq)
  let ?s' = "(db_flush ?s0)\<lparr> committed := txn (db_flush ?s0) \<rparr>"
  have "run idx since limit init_stats ?s0 = (Inr \<lparr> indexed = 0, skipped = 1, errors = 0 \<rparr>, ?s')"
    using f p w committed_contents_after_commit[of ?s0]
    by (simp add: run_def process_item_parsed init_stats_def)
  moreover have "committed ?s' = db"
    by (simp add: db_flush_def open_session_def)
  ultimately show ?thesis by blast
qed

lemma run_indexer_known:
  assumes "platform \<in> set known_platforms" and "session_fault (envs platform) = None"
    and "run (collector (envs platform)) (last_run w platform) limit init_stats
           (open_session af (env_commit_fault (envs platform)) (env_rollback_fault (envs platform))
              (database w)) = (Inr st, s')"
  shows "run_indexer af envs platform limit w =
           (Inr (Stats st), w\<lparr> last_run := (last_run w)(platform \<mapsto> utcnow (envs platform)),
                               database := committed s' \<rparr>)"
  using assms by (simp add: run_indexer_def get_indexer_def Let_def)

lemma ingest_twice:
  assumes url: "source_url c = Some u" "u \<noteq> []"
    and known: "platform \<in> set known_platforms"
    and nf: "session_fault (envs platform) = None" "env_commit_fault (envs platform) = None"
    and f: "\<forall>since. fetch_content (collector (envs platform)) since limit = Inr [raw]"
    and p: "parse_content (collector (envs platform)) raw = Inr (Some c)"
    and dist: "distinct (map agent_id (agents (database w)))"
    and fresh: "\<forall>r \<in> set (contents (database w)). source_url r \<noteq> Some u"
  shows "\<exists>w1 w2.
           run_indexer af envs platform limit w =
             (Inr (Stats \<lparr> indexed = 1, skipped = 0, errors = 0 \<rparr>), w1)
         \<and> run_indexer af envs platform limit w1 =
             (Inr (Stats \<lparr> indexed = 0, skipped = 1, errors = 0 \<rparr>), w2)
         \<and> database w2 = database w1
         \<and> length (filter (\<lambda>r. source_url r = Some u) (contents (database w2))) = 1"
proof -
  let ?idx = "collector (envs platform)"
  let ?rf = "env_rollback_fault (envs platform)"
  have f0: "fetch_content ?idx (last_run w platform) limit = Inr [raw]" using f by simp
  have fresh': "\<forall>r \<in> set (contents (database w)). source_url r \<noteq> source_url c"
    using fresh url by simp
  from run_single_written[OF f0 p dist fresh', of af ?rf]
  obtain k s1 where r1: "run ?idx (last_run w platform) limit init_stats
        (open_session af None ?rf (database w)) = (Inr \<lparr> indexed = 1, skipped = 0, errors = 0 \<rparr>, s1)"
    and c1: "contents (committed s1) = contents (database w) @ [new_agent_content c k]"
    by blast
  let ?w1 = "w\<lparr> last_run := (last_run w)(platform \<mapsto> utcnow (envs platform)),
               database := committed s1 \<rparr>"
  have ri1: "run_indexer af envs platform limit w =
             (Inr (Stats \<lparr> indexed = 1, skipped = 0, errors = 0 \<rparr>), ?w1)"
    using r1 nf by (intro run_indexer_known[OF known]) simp_all
  have one: "filter (\<lambda>r. source_url r = Some u) (contents (database ?w1)) = [new_agent_content c k]"
    using c1 fresh url by (simp add: filter_empty_conv)
  have f1: "fetch_content ?idx (last_run ?w1 platform) limit = Inr [raw]" using f by simp
  from run_single_duplicate[OF f1 p url one, of af ?rf]
  obtain s2 where r2: "run ?idx (last_run ?w1 platform) limit init_stats
        (open_session af None ?rf (database ?w1)) = (Inr \<lparr> indexed = 0, skipped = 1, errors = 0 \<rparr>, s2)"
    and c2: "committed s2 = database ?w1" by blast
  let ?w2 = "?w1\<lparr> last_run := (last_run ?w1)(platform \<mapsto> utcnow (envs platform)),
               database := committed s2 \<rparr>"
  have ri2: "run_indexer af envs platform limit ?w1 =
             (Inr (Stats \<lparr> indexed = 0, skipped = 1, errors = 0 \<rparr>), ?w2)"
    using r2 nf by (intro run_indexer_known[OF known]) simp_all
  have "database ?w2 = database ?w1" using c2 by simp
  moreover have "length (filter (\<lambda>r. source_url r = Some u) (contents (database ?w2))) = 1"
    using c2 one by simp
  ultimately show ?thesis using ri1 ri2 by blast
qed

text \<open>
  Claim C3. Upsert is idempotent on the source address. An item whose non-empty address is
  already on exactly one row visible to the duplicate query is skipped: the outcome is
  \<^verbatim>\<open>None\<close>, the skipped counter grows by one, and no content row, agent row or counter
  changes. That is the case for the second of two upserts of one item in a session that
  flushes before its queries, and for the second of two runs that ingest the same item:
  the first run reports indexed 1, the second indexed 0 and skipped 1, the catalog is the
  same after the second run and holds the address on exactly one row.
\<close>

theorem dedup_idempotent:
  "(source_url c = Some u \<and> u \<noteq> []
      \<and> filter (\<lambda>r. source_url r = Some u) (contents (txn (before_query s))) = [r] \<longrightarrow>
      (\<exists>s'. index_content c st s = (None, st\<lparr> skipped := skipped st + 1 \<rparr>, s')
           \<and> committed s' = committed s \<and> agents (txn s') = agents (txn s)
           \<and> visible_contents s' = visible_contents s))
   \<and> (source_url c = Some u \<and> u \<noteq> [] \<and> autoflush s
        \<and> index_content c st s = (Some row, st1, s1) \<longrightarrow>
      (\<exists>s2. index_content c st1 s1 = (None, st1\<lparr> skipped := skipped st1 + 1 \<rparr>, s2)
           \<and> committed s2 = committed s1 \<and> agents (txn s2) = agents (txn s1)
           \<and> visible_contents s2 = visible_contents s1))
   \<and> (source_url c = Some u \<and> u \<noteq> [] \<and> platform \<in> set known_platforms
        \<and> session_fault (envs platform) = None \<and> env_commit_fault (envs platform) = None
        \<and> (\<forall>since. fetch_content (collector (envs platform)) since limit = Inr [raw])
        \<and> parse_content (collector (envs platform)) raw = Inr (Some c)
        \<and> distinct (map agent_id (agents (database w)))
        \<and> (\<forall>r \<in> set (contents (database w)). source_url r \<noteq> Some u) \<longrightarrow>
      (\<exists>w1 w2.
           run_indexer af envs platform limit w =
             (Inr (Stats \<lparr> indexed = 1, skipped = 0, errors = 0 \<rparr>), w1)
         \<and> run_indexer af envs platform limit w1 =
             (Inr (Stats \<lparr> indexed = 0, skipped = 1, errors = 0 \<rparr>), w2)
         \<and> database w2 = database w1
         \<and> length (filter (\<lambda>r. source_url r = Some u) (contents (database w2))) = 1))"
proof (intro conjI impI)
  assume "source_url c = Some u \<and> u \<noteq> []
      \<and> filter (\<lambda>r. source_url r = Some u) (contents (txn (before_query s))) = [r]"
  then have "source_url c = Some u" "u \<noteq> []"
    "filter (\<lambda>r. source_url r = Some u) (contents (txn (before_query s))) = [r]" by simp_all
  then have "index_content c st s = (None, st\<lparr> skipped := skipped st + 1 \<rparr>, before_query s)"
    by (rule index_content_duplicate)
  then show "\<exists>s'. index_content c st s = (None, st\<lparr> skipped := skipped st + 1 \<rparr>, s')
           \<and> committed s' = committed s \<and> agents (txn s') = agents (txn s)
           \<and> visible_contents s' = visible_contents s"
    by simp
next
  assume "source_url c = Some u \<and> u \<noteq> [] \<and> autoflush s
        \<and> index_content c st s = (Some row, st1, s1)"
  then have "autoflush s" "source_url c = Some u" "u \<noteq> []"
    "index_content c st s = (Some row, st1, s1)" by simp_all
  then have "index_content c st1 s1 = (None, st1\<lparr> skipped := skipped st1 + 1 \<rparr>, before_query s1)"
    by (rule index_content_twice_in_session)
  then show "\<exists>s2. index_content c st1 s1 = (None, st1\<lparr> skipped := skipped st1 + 1 \<rparr>, s2)
           \<and> committed s2 = committed s1 \<and> agents (txn s2) = agents (txn s1)
           \<and> visible_contents s2 = visible_contents s1"
    by simp
next
  assume "source_url c = Some u \<and> u \<noteq> [] \<and> platform \<in> set known_platforms
        \<and> session_fault (envs platform) = None \<and> env_commit_fault (envs platform) = None
        \<and> (\<forall>since. fetch_content (collector (envs platform)) since limit = Inr [raw])
        \<and> parse_content (collector (envs platform)) raw = Inr (Some c)
        \<and> distinct (map agent_id (agents (database w)))
        \<and> (\<forall>r \<in> set (contents (database w)). source_url r \<noteq> Some u)"
  then have "source_url c = Some u" "u \<noteq> []" "platform \<in> set known_platforms"
    "session_fault (envs platform) = None" "env_commit_fault (envs platform) = None"
    "\<forall>since. fetch_content (collector (envs platform)) since limit = Inr [raw]"
    "parse_content (collector (envs platform)) raw = Inr (Some c)"
    "distinct (map agent_id (agents (database w)))"
    "\<forall>r \<in> set (contents (database w)). source_url r \<noteq> Some u" by simp_all
  then show "\<exists>w1 w2.
           run_indexer af envs platform limit w =
             (Inr (Stats \<lparr> indexed = 1, skipped = 0, errors = 0 \<rparr>), w1)
         \<and> run_indexer af envs platform limit w1 =
             (Inr (Stats \<lparr> indexed = 0, skipped = 1, errors = 0 \<rparr>), w2)
         \<and> database w2 = database w1
         \<and> length (filter (\<lambda>r. source_url r = Some u) (contents (database w2))) = 1"
    by (rule ingest_twice)
qed

theorem dedup_idempotent_witness:
  "index_content (example_item ''a:bot'' ''https://example.org/a'') init_stats
      (open_session False None None
         \<lparr> agents = [\<lparr> agent_pk = 1, agent_id = ''a:bot'', agent_name = ''a:bot'',
                       total_creations = Some 1 \<rparr>],
           contents = [new_agent_content (example_item ''a:bot'' ''https://example.org/a'') 1] \<rparr>)
     = (None, init_stats\<lparr> skipped := 1 \<rparr>,
        open_session False None None
         \<lparr> agents = [\<lparr> agent_pk = 1, agent_id = ''a:bot'', agent_name = ''a:bot'',
                       total_creations = Some 1 \<rparr>],
           contents = [new_agent_content (example_item ''a:bot'' ''https://example.org/a'') 1] \<rparr>)
   \<and> fst (index_content (example_item ''a:bot'' ''https://example.org/a'') init_stats
           (open_session True None None empty_store)) \<noteq> None
   \<and> fst (snd (index_content (example_item ''a:bot'' ''https://example.org/a'')
         (fst (snd (index_content (example_item ''a:bot'' ''https://example.org/a'') init_stats
            (open_session True None None empty_store))))
         (snd (snd (index_content (example_item ''a:bot'' ''https://example.org/a'') init_stats
            (open_session True None None empty_store)))))) =
       \<lparr> indexed = 1, skipped = 1, errors = 0 \<rparr>
   \<and> (\<exists>w1 w2.
         run_indexer True healthy_envs ''websearch'' 10 world0 =
           (Inr (Stats \<lparr> indexed = 1, skipped = 0, errors = 0 \<rparr>), w1)
       \<and> run_indexer True healthy_envs ''websearch'' 10 w1 =
           (Inr (Stats \<lparr> indexed = 0, skipped = 1, errors = 0 \<rparr>), w2)
       \<and> database w2 = database w1
       \<and> length (filter (\<lambda>r. source_url r = Some ''https://example.org/websearch'')
            (contents (database w2))) = 1)"
proof -
  let ?c = "example_item ''a:bot'' ''https://example.org/a''"
  let ?s = "open_session False None None
         \<lparr> agents = [\<lparr> agent_pk = 1, agent_id = ''a:bot'', agent_name = ''a:bot'',
                       total_creations = Some 1 \<rparr>],
           contents = [new_agent_content ?c 1] \<rparr>"
  let ?R = "index_content ?c init_stats (open_session True None None empty_store)"
  note t1 = dedup_idempotent[where c = ?c and u = "''https://example.org/a''" and s = ?s
      and r = "new_agent_content ?c 1" and st = init_stats, THEN conjunct1]
  have one: "index_content ?c init_stats ?s = (None, init_stats\<lparr> skipped := 1 \<rparr>, ?s)"
    using t1 by (simp add: eval_defs init_stats_def)
  have R: "?R = (Some (the (fst ?R)), fst (snd ?R), snd (snd ?R))"
    by (simp add: eval_defs init_stats_def)
  have R1: "fst (snd ?R) = \<lparr> indexed = 1, skipped = 0, errors = 0 \<rparr>"
    by (simp add: eval_defs init_stats_def)
  note t2 = dedup_idempotent[where c = ?c and u = "''https://example.org/a''"
      and s = "open_session True None None empty_store" and st = init_stats
      and row = "the (fst ?R)" and ?st1.0 = "fst (snd ?R)" and ?s1.0 = "snd (snd ?R)",
      THEN conjunct2, THEN conjunct1]
  have h1: "source_url ?c = Some ''https://example.org/a''" by (simp add: example_item_def)
  have h2: "''https://example.org/a'' \<noteq> []" by simp
  have h3: "autoflush (open_session True None None empty_store)" by simp
  have hyp: "source_url ?c = Some ''https://example.org/a'' \<and> ''https://example.org/a'' \<noteq> []
          \<and> autoflush (open_session True None None empty_store)
          \<and> ?R = (Some (the (fst ?R)), fst (snd ?R), snd (snd ?R))"
    by (intro conjI h1 h2 h3 R)
  from mp[OF t2 hyp] obtain s2 where "index_content ?c (fst (snd ?R)) (snd (snd ?R)) =
          (None, (fst (snd ?R))\<lparr> skipped := skipped (fst (snd ?R)) + 1 \<rparr>, s2)"
    by blast
  then have "fst (snd (index_content ?c (fst (snd ?R)) (snd (snd ?R)))) =
      (fst (snd ?R))\<lparr> skipped := skipped (fst (snd ?R)) + 1 \<rparr>"
    by simp
  then have two: "fst (snd (index_content ?c (fst (snd ?R)) (snd (snd ?R)))) =
       \<lparr> indexed = 1, skipped = 1, errors = 0 \<rparr>"
    by (simp add: R1)
  have first: "fst ?R \<noteq> None" using R by (metis fst_conv option.distinct(1))
  note t3 = dedup_idempotent[where c = "example_item ''websearch:bot'' ''https://example.org/websearch''"
      and u = "''https://example.org/websearch''" and platform = "''websearch''"
      and envs = healthy_envs and limit = 10 and raw = 0 and w = world0 and af = True,
      THEN conjunct2, THEN conjunct2]
  have three: "\<exists>w1 w2.
         run_indexer True healthy_envs ''websearch'' 10 world0 =
           (Inr (Stats \<lparr> indexed = 1, skipped = 0, errors = 0 \<rparr>), w1)
       \<and> run_indexer True healthy_envs ''websearch'' 10 w1 =
           (Inr (Stats \<lparr> indexed = 0, skipped = 1, errors = 0 \<rparr>), w2)
       \<and> database w2 = database w1
       \<and> length (filter (\<lambda>r. source_url r = Some ''https://example.org/websearch'')
            (contents (database w2))) = 1"
    using t3 by (simp add: example_item_def healthy_envs_def single_collector_def
          known_platforms_def world0_def empty_store_def)
  from one first two three show ?thesis by blast
qed

lemma bump_agents:
  "agents (txn (bump_total_creations a s)) =
     map (\<lambda>r. if agent_pk r = agent_pk a
               then r\<lparr> total_creations :=
                      Some ((case total_creations a of None \<Rightarrow> 0 | Some k \<Rightarrow> k) + 1) \<rparr>
               else r) (agents (txn s))"
  by (simp add: bump_total_creations_def Let_def)

lemma bump_fresh_agent:
  assumes "agent_pk a = fresh_pk rows"
  shows "map (\<lambda>r. if agent_pk r = agent_pk a then f r else r) (rows @ [a]) = rows @ [f a]"
proof -
  have "\<forall>r \<in> set rows. agent_pk r \<noteq> agent_pk a"
    using assms fresh_pk_new by metis
  then have "map (\<lambda>r. if agent_pk r = agent_pk a then f r else r) rows = rows"
    by (intro map_idI) simp
  then show ?thesis by simp
qed

lemma written_twice_same_agent:
  assumes c1: "agent_id_external c1 = aid" and c2: "agent_id_external c2 = aid"
    and unseen: "\<forall>a \<in> set (agents (txn s)). agent_id a \<noteq> aid"
    and w1: "index_content c1 st s = (Some row1, st1, s1)"
    and w2: "index_content c2 st1 s1 = (Some row2, st2, s2)"
  shows "agents (txn s2) = agents (txn s) @
           [\<lparr> agent_pk = fresh_pk (agents (txn s)), agent_id = aid, agent_name = aid,
              total_creations = Some 2 \<rparr>]"
    and "agent_fk row1 = fresh_pk (agents (txn s))"
    and "agent_fk row2 = fresh_pk (agents (txn s))"
    and "indexed st2 = indexed st + 2"
proof -
  let ?k = "fresh_pk (agents (txn s))"
  let ?new = "\<lambda>n. \<lparr> agent_pk = ?k, agent_id = aid, agent_name = aid, total_creations = Some n \<rparr>"
  from index_content_SomeD[OF w1] c1 obtain d1 a1 g1 where
    d1: "duplicate_check c1 s = (Inr False, d1)"
    and g1: "get_or_create_agent aid aid d1 = (Inr a1, g1)"
    and row1: "row1 = new_agent_content c1 (agent_pk a1)"
    and st1: "st1 = st\<lparr> indexed := indexed st + 1 \<rparr>"
    and s1: "s1 = bump_total_creations a1 (db_add row1 g1)" by auto
  have ad1: "agents (txn d1) = agents (txn s)"
    using duplicate_check_rows(2)[of c1 s] d1 by simp
  have none: "filter (\<lambda>a. agent_id a = aid) (agents (txn d1)) = []"
    using unseen ad1 by (simp add: filter_empty_conv)
  from get_agent_created[OF none, of aid] g1 ad1
  have a1: "a1 = ?new 0" and ag1: "agents (txn g1) = agents (txn s) @ [?new 0]"
    by simp_all
  have as1: "agents (txn s1) = agents (txn s) @ [?new 1]"
    unfolding s1 bump_agents db_add_rows ag1
    using bump_fresh_agent[of a1 "agents (txn s)"] a1 by simp
  from index_content_SomeD[OF w2] c2 obtain d2 a2 g2 where
    d2: "duplicate_check c2 s1 = (Inr False, d2)"
    and g2: "get_or_create_agent aid aid d2 = (Inr a2, g2)"
    and row2: "row2 = new_agent_content c2 (agent_pk a2)"
    and st2: "st2 = st1\<lparr> indexed := indexed st1 + 1 \<rparr>"
    and s2: "s2 = bump_total_creations a2 (db_add row2 g2)" by auto
  have ad2: "agents (txn d2) = agents (txn s) @ [?new 1]"
    using duplicate_check_rows(2)[of c2 s1] d2 as1 by simp
  have one: "filter (\<lambda>a. agent_id a = aid) (agents (txn d2)) = [?new 1]"
    using unseen ad2 by (simp add: filter_empty_conv)
  from get_agent_found[OF one, of aid] g2 ad2
  have a2: "a2 = ?new 1" and ag2: "agents (txn g2) = agents (txn s) @ [?new 1]"
    by simp_all
  show "agents (txn s2) = agents (txn s) @ [?new 2]"
    unfolding s2 bump_agents db_add_rows ag2
    using bump_fresh_agent[of a2 "agents (txn s)"] a2 by simp
  show "agent_fk row1 = ?k" using row1 a1 by (simp add: new_agent_content_def)
  show "agent_fk row2 = ?k" using row2 a2 by (simp add: new_agent_content_def)
  show "indexed st2 = indexed st + 2" using st1 st2 by simp
qed

text \<open>
  Claim C4. Two items that share one external agent id, have different addresses and are
  both written, starting from a catalog that has no agent with that id: the catalog then
  holds exactly one agent row for the id, created at the first item, with
  \<^verbatim>\<open>total_creations\<close> equal to 2, and both content rows refer to it. The row is the same
  after the commit.
\<close>

theorem agent_reuse:
  "agent_id_external c1 = aid \<and> agent_id_external c2 = aid \<and> source_url c1 \<noteq> source_url c2
   \<and> (\<forall>a \<in> set (agents (txn s)). agent_id a \<noteq> aid)
   \<and> index_content c1 st s = (Some row1, st1, s1)
   \<and> index_content c2 st1 s1 = (Some row2, st2, s2) \<longrightarrow>
     filter (\<lambda>a. agent_id a = aid) (agents (txn s2)) =
       [\<lparr> agent_pk = fresh_pk (agents (txn s)), agent_id = aid, agent_name = aid,
          total_creations = Some 2 \<rparr>]
   \<and> agent_fk row1 = fresh_pk (agents (txn s)) \<and> agent_fk row2 = fresh_pk (agents (txn s))
   \<and> indexed st2 = indexed st + 2
   \<and> (commit_fault s = None \<longrightarrow>
        filter (\<lambda>a. agent_id a = aid) (agents (committed (snd (db_commit s2)))) =
          [\<lparr> agent_pk = fresh_pk (agents (txn s)), agent_id = aid, agent_name = aid,
             total_creations = Some 2 \<rparr>])"
proof (intro impI)
  assume a: "agent_id_external c1 = aid \<and> agent_id_external c2 = aid
   \<and> source_url c1 \<noteq> source_url c2
   \<and> (\<forall>a \<in> set (agents (txn s)). agent_id a \<noteq> aid)
   \<and> index_content c1 st s = (Some row1, st1, s1)
   \<and> index_content c2 st1 s1 = (Some row2, st2, s2)"
  then have h: "agent_id_external c1 = aid" "agent_id_external c2 = aid"
    "\<forall>a \<in> set (agents (txn s)). agent_id a \<noteq> aid"
    "index_content c1 st s = (Some row1, st1, s1)"
    "index_content c2 st1 s1 = (Some row2, st2, s2)" by simp_all
  note r = written_twice_same_agent[OF h]
  have f: "filter (\<lambda>a. agent_id a = aid) (agents (txn s2)) =
       [\<lparr> agent_pk = fresh_pk (agents (txn s)), agent_id = aid, agent_name = aid,
          total_creations = Some 2 \<rparr>]"
    using r(1) h(3) by (simp add: filter_empty_conv)
  have cf: "commit_fault s2 = commit_fault s"
    using index_content_fields(3)[of c1 st s] index_content_fields(3)[of c2 st1 s1] h(4,5)
    by simp
  have "commit_fault s = None \<longrightarrow>
        filter (\<lambda>a. agent_id a = aid) (agents (committed (snd (db_commit s2)))) =
          [\<lparr> agent_pk = fresh_pk (agents (txn s)), agent_id = aid, agent_name = aid,
             total_creations = Some 2 \<rparr>]"
    using f cf by (simp add: committed_contents_after_commit)
  with f r(2,3,4) show "filter (\<lambda>a. agent_id a = aid) (agents (txn s2)) =
       [\<lparr> agent_pk = fresh_pk (agents (txn s)), agent_id = aid, agent_name = aid,
          total_creations = Some 2 \<rparr>]
   \<and> agent_fk row1 = fresh_pk (agents (txn s)) \<and> agent_fk row2 = fresh_pk (agents (txn s))
   \<and> indexed st2 = indexed st + 2
   \<and> (commit_fault s = None \<longrightarrow>
        filter (\<lambda>a. agent_id a = aid) (agents (committed (snd (db_commit s2)))) =
          [\<lparr> agent_pk = fresh_pk (agents (txn s)), agent_id = aid, agent_name = aid,
             total_creations = Some 2 \<rparr>])"
    by blast
qed

theorem agent_reuse_witness:
  "filter (\<lambda>a. agent_id a = ''a:bot'')
     (agents (committed (snd (db_commit (snd (snd
        (index_content (example_item ''a:bot'' ''https://example.org/2'')
           (fst (snd (index_content (example_item ''a:bot'' ''https://example.org/1'') init_stats
              (open_session True None None empty_store))))
           (snd (snd (index_content (example_item ''a:bot'' ''https://example.org/1'') init_stats
              (open_session True None None empty_store)))))))))))
   = [\<lparr> agent_pk = 1, agent_id = ''a:bot'', agent_name = ''a:bot'', total_creations = Some 2 \<rparr>]"
proof -
  let ?c1 = "example_item ''a:bot'' ''https://example.org/1''"
  let ?c2 = "example_item ''a:bot'' ''https://example.org/2''"
  let ?s = "open_session True None None empty_store"
  let ?R1 = "index_content ?c1 init_stats ?s"
  let ?R2 = "index_content ?c2 (fst (snd ?R1)) (snd (snd ?R1))"
  have R1: "?R1 = (Some (the (fst ?R1)), fst (snd ?R1), snd (snd ?R1))"
    by (simp add: eval_defs init_stats_def)
  have R2: "?R2 = (Some (the (fst ?R2)), fst (snd ?R2), snd (snd ?R2))"
    by (simp add: eval_defs init_stats_def)
  have h1: "agent_id_external ?c1 = ''a:bot''" "agent_id_external ?c2 = ''a:bot''"
    "source_url ?c1 \<noteq> source_url ?c2" by (simp_all add: example_item_def)
  have h2: "\<forall>a \<in> set (agents (txn ?s)). agent_id a \<noteq> ''a:bot''"
    by (simp add: empty_store_def)
  have hyp: "agent_id_external ?c1 = ''a:bot'' \<and> agent_id_external ?c2 = ''a:bot''
      \<and> source_url ?c1 \<noteq> source_url ?c2
      \<and> (\<forall>a \<in> set (agents (txn ?s)). agent_id a \<noteq> ''a:bot'')
      \<and> ?R1 = (Some (the (fst ?R1)), fst (snd ?R1), snd (snd ?R1))
      \<and> ?R2 = (Some (the (fst ?R2)), fst (snd ?R2), snd (snd ?R2))"
    by (intro conjI h1 h2 R1 R2)
  note t = agent_reuse[where ?c1.0 = ?c1 and ?c2.0 = ?c2 and aid = "''a:bot''" and s = ?s
      and st = init_stats and ?row1.0 = "the (fst ?R1)" and ?st1.0 = "fst (snd ?R1)"
      and ?s1.0 = "snd (snd ?R1)" and ?row2.0 = "the (fst ?R2)" and ?st2.0 = "fst (snd ?R2)"
      and ?s2.0 = "snd (snd ?R2)"]
  have pk: "fresh_pk (agents (txn ?s)) = 1" by (simp add: fresh_pk_def empty_store_def)
  have cf: "commit_fault ?s = None" by simp
  from mp[OF t hyp] cf pk show ?thesis by simp
qed

lemmas run_defs = run_all_indexers_def all_platforms_def run_indexer_def get_indexer_def
  known_platforms_def run_def run_failed_def db_rollback_def db_commit_def process_item_def
  outage_envs_def failing_collector_def single_collector_def world0_def init_stats_def

text \<open>
  One step of the loop of \<^verbatim>\<open>run_all_indexers\<close>: a result of \<^verbatim>\<open>run_indexer\<close> is stored
  and followed by the pause; an exception that leaves \<^verbatim>\<open>run_indexer\<close> is stored as an
  error entry, without the pause.
\<close>

lemma run_all_loop_raised:
  "session_fault (envs platform) = Some e \<Longrightarrow>
   run_all_loop af envs limit (platform # rest) (results, log, w) =
     run_all_loop af envs limit rest (results(platform \<mapsto> Error (str_of e)), log @ [Ran platform], w)"
  by (simp add: run_indexer_def)

lemma run_all_loop_returned:
  "run_indexer af envs platform limit w = (Inr r, w') \<Longrightarrow>
   run_all_loop af envs limit (platform # rest) (results, log, w) =
     run_all_loop af envs limit rest (results(platform \<mapsto> r), log @ [Ran platform, Slept 2], w')"
  by simp

text \<open>
  Claim C6, at a concrete input. \<^verbatim>\<open>run_all_indexers\<close> on an empty catalog, where the fetch
  of the third platform, \<^verbatim>\<open>github\<close>, raises and every other platform yields one item:
  the platforms before and after it report indexed 1, but the entry of \<^verbatim>\<open>github\<close> is the
  plain counters, all zero, not an error entry, and its watermark is set.
\<close>

theorem run_all_outage_not_recorded:
  "(case run_all_indexers True (outage_envs ''github'') 10 world0 of
      (results, log, w) \<Rightarrow>
        results ''dynamic'' = Some (Stats \<lparr> indexed = 1, skipped = 0, errors = 0 \<rparr>)
      \<and> results ''github'' = Some (Stats \<lparr> indexed = 0, skipped = 0, errors = 0 \<rparr>)
      \<and> results ''huggingface'' = Some (Stats \<lparr> indexed = 1, skipped = 0, errors = 0 \<rparr>)
      \<and> last_run w ''github'' = Some 200)"
  by (simp add: run_defs eval_defs)

section \<open>The collectors\<close>

lemma length_py_slice_to: "0 \<le> n \<Longrightarrow> length (py_slice_to xs n) \<le> nat n"
  by (simp add: py_slice_to_def)

lemma youtube_rss_append_length:
  "length (snd (youtube_rss_append query entries items)) \<le> length items + length entries"
proof (induction entries arbitrary: items)
  case Nil
  then show ?case by simp
next
  case (Cons entry entries)
  show ?case
  proof (cases "youtube_rss_record query entry")
    case (Inl e)
    then show ?thesis by simp
  next
    case (Inr r)
    with Cons[of "items @ [r]"] show ?thesis by simp
  qed
qed

lemma youtube_rss_loop_length:
  assumes "0 \<le> limit div 5"
  shows "length (fst (youtube_rss_loop feedparser up limit queries (items, c)))
           \<le> length items + length queries * nat (limit div 5)"
proof (induction queries arbitrary: items c)
  case Nil
  then show ?case by simp
next
  case (Cons query rest)
  let ?req = "\<lparr> req_url = ''https://www.youtube.com/rss/search/'' @ query @ ''/videos'',
                           req_params = [], req_headers = [] \<rparr>"
  obtain r c' where g: "client_get up ?req c = (r, c')" by fastforce
  let ?items1 = "case r of
                   Inl e \<Rightarrow> items
                 | Inr resp \<Rightarrow>
                     if status_code resp = 200
                     then (case feedparser (body_text resp) of
                             Inl e \<Rightarrow> items
                           | Inr entries \<Rightarrow>
                               snd (youtube_rss_append query (py_slice_to entries (limit div 5)) items))
                     else items"
  have step: "youtube_rss_loop feedparser up limit (query # rest) (items, c) =
      youtube_rss_loop feedparser up limit rest (?items1, c')"
    using g by (cases r) simp_all
  have one: "length ?items1 \<le> length items + nat (limit div 5)"
  proof (cases r)
    case (Inl e)
    then show ?thesis by simp
  next
    case (Inr resp)
    show ?thesis
    proof (cases "status_code resp = 200")
      case False
      with Inr show ?thesis by simp
    next
      case True
      show ?thesis
      proof (cases "feedparser (body_text resp)")
        case (Inl e)
        with Inr True show ?thesis by simp
      next
        case (Inr entries)
        have "length (snd (youtube_rss_append query (py_slice_to entries (limit div 5)) items))
            \<le> length items + length (py_slice_to entries (limit div 5))"
          by (rule youtube_rss_append_length)
        also have "\<dots> \<le> length items + nat (limit div 5)"
          using length_py_slice_to[OF assms, of entries] by simp
        finally show ?thesis using \<open>r = Inr resp\<close> True Inr by simp
      qed
    qed
  qed
  have "length (fst (youtube_rss_loop feedparser up limit rest (?items1, c')))
      \<le> length ?items1 + length rest * nat (limit div 5)"
    by (rule Cons.IH)
  with one show ?case unfolding step by simp
qed

lemma fetch_via_rss_length:
  assumes "0 < limit"
  shows "length (fst (fetch_via_rss feedparser up limit)) \<le> nat limit"
proof -
  have nn: "0 \<le> limit div 5" using assms by simp
  have "length (fst (youtube_rss_loop feedparser up limit (take 5 AI_SEARCH_TERMS) ([], new_client)))
      \<le> length ([]::json list) + length (take 5 AI_SEARCH_TERMS) * nat (limit div 5)"
    by (rule youtube_rss_loop_length[OF nn])
  also have "\<dots> = 5 * nat (limit div 5)" by (simp add: AI_SEARCH_TERMS_def)
  also have "\<dots> \<le> nat limit" using assms by linarith
  finally show ?thesis by (auto simp: fetch_via_rss_def split: prod.splits)
qed

lemma youtube_fetch_length:
  assumes "0 < limit"
  shows "length (fst (youtube_fetch_content feedparser api_key up since limit)) \<le> nat limit"
  using fetch_via_rss_length[OF assms, of feedparser up] assms
  by (simp add: youtube_fetch_content_def length_py_slice_to split: option.splits prod.splits)

text \<open>
  Claim C5. For a positive limit, the sequence a collector returns after merging its
  sub-sources has at most \<open>limit\<close> elements, whatever the sub-sources returned. That
  holds for every collector that aggregates several sub-sources: Reddit (one request per
  subreddit), the dynamic collector (four gathered sub-fetchers), GitHub (one request per
  keyword), web search (one request per query, and the feeds), Hugging Face (models and
  datasets), Moltbook (the platform and two fallbacks) and YouTube (one request per search
  term; its RSS fallback does not slice, but takes at most \<^verbatim>\<open>limit // 5\<close> entries from
  each of five feeds).
\<close>

theorem fetch_limit_bound:
  "0 < limit \<longrightarrow>
     length (fst (reddit_fetch_content up since limit)) \<le> nat limit
   \<and> length (dynamic_fetch_content srcs since limit) \<le> nat limit
   \<and> length (fst (github_fetch_content api_token strftime up since limit)) \<le> nat limit
   \<and> length (fst (websearch_fetch_content up since limit)) \<le> nat limit
   \<and> length (fst (huggingface_fetch_content api_token up since limit)) \<le> nat limit
   \<and> length (fst (moltbook_fetch_content api_url up since limit)) \<le> nat limit
   \<and> length (fst (youtube_fetch_content feedparser api_key up since limit)) \<le> nat limit"
proof (intro impI conjI)
  assume pos: "0 < limit"
  then have nn: "0 \<le> limit" by simp
  show "length (fst (reddit_fetch_content up since limit)) \<le> nat limit"
    using nn by (simp add: reddit_fetch_content_def length_py_slice_to split: prod.splits)
  show "length (dynamic_fetch_content srcs since limit) \<le> nat limit"
    using nn by (simp add: dynamic_fetch_content_def length_py_slice_to Let_def)
  show "length (fst (github_fetch_content api_token strftime up since limit)) \<le> nat limit"
    using nn by (simp add: github_fetch_content_def length_py_slice_to split: prod.splits)
  show "length (fst (websearch_fetch_content up since limit)) \<le> nat limit"
    using nn by (simp add: websearch_fetch_content_def length_py_slice_to split: prod.splits)
  show "length (fst (huggingface_fetch_content api_token up since limit)) \<le> nat limit"
    using nn by (simp add: huggingface_fetch_content_def length_py_slice_to split: prod.splits)
  show "length (fst (moltbook_fetch_content api_url up since limit)) \<le> nat limit"
    using nn by (simp add: moltbook_fetch_content_def length_py_slice_to Let_def split: prod.splits)
  show "length (fst (youtube_fetch_content feedparser api_key up since limit)) \<le> nat limit"
    using pos by (rule youtube_fetch_length)
qed

theorem fetch_limit_bound_witness:
  "(0::int) < 4
   \<and> length (fst (reddit_fetch_content two_subreddits None 4)) = 4
   \<and> length (dynamic_fetch_content two_each None 4) = 4
   \<and> (0::int) < 10
   \<and> length (fst (youtube_fetch_content three_entries None (always_status 200) None 10)) = 10"
proof -
  have a: "length (fst (reddit_loop two_subreddits 4 (take 5 AI_SUBREDDITS) ([], new_client))) = 6"
    by (simp add: AI_SUBREDDITS_def two_subreddits_def client_get_def new_client_def
        reddit_request_def reddit_on_200_def three_posts_def)
  have b: "fst (reddit_fetch_content two_subreddits None 4) =
      py_slice_to (fst (reddit_loop two_subreddits 4 (take 5 AI_SUBREDDITS) ([], new_client))) 4"
    by (simp add: reddit_fetch_content_def split: prod.splits)
  have c: "length (fst (reddit_fetch_content two_subreddits None 4)) = 4"
    unfolding b using a by (simp add: py_slice_to_def)
  have d: "length (dynamic_fetch_content two_each None 4) = 4"
    by (simp add: dynamic_fetch_content_def two_each_def py_slice_to_def)
  have e: "length (fst (youtube_fetch_content three_entries None (always_status 200) None 10)) = 10"
    by (simp add: youtube_fetch_content_def fetch_via_rss_def AI_SEARCH_TERMS_def client_get_def
        new_client_def always_status_def three_entries_def py_slice_to_def
        youtube_rss_record_def)
  from fetch_limit_bound[where limit = 4 and up = two_subreddits and since = None
      and srcs = two_each]
    fetch_limit_bound[where limit = 10 and up = "always_status 200" and since = None
      and feedparser = three_entries and api_key = None] c d e
  show ?thesis by simp
qed













lemma client_get_closed:
  "is_closed c \<Longrightarrow>
   client_get up req c =
     (Inl (Raised ''Cannot send a request, as the client has been closed.''), c)"
  by (simp add: client_get_def)

lemma feeds_loop_closed:
  "is_closed c \<Longrightarrow> feeds_loop up feeds (items, c) = (items, c)"
proof (induction feeds)
  case Nil
  then show ?case by simp
next
  case (Cons feed feeds)
  obtain feed_url source where f: "feed = (feed_url, source)" by fastforce
  show ?case unfolding f using Cons by (simp add: client_get_closed)
qed

lemma py_slice_to_Nil [simp]: "py_slice_to [] n = []"
  by (simp add: py_slice_to_def)

lemma fetch_discovery_feeds_closed:
  "is_closed c \<Longrightarrow> fetch_discovery_feeds up c n = ([], c)"
  by (simp add: fetch_discovery_feeds_def feeds_loop_closed)

lemma search_duckduckgo_client:
  "\<not> is_closed c \<Longrightarrow>
   snd (search_duckduckgo up c query n) = c\<lparr> sent := sent c @ [duckduckgo_request query] \<rparr>"
  by (simp add: search_duckduckgo_def client_get_def split: sum.splits)

lemma search_loop_client:
  "\<not> is_closed c \<Longrightarrow>
   snd (search_loop up n queries (items, c)) =
     c\<lparr> sent := sent c @ map duckduckgo_request queries \<rparr>"
proof (induction queries arbitrary: items c)
  case Nil
  then show ?case by simp
next
  case (Cons query rest)
  obtain found c1 where s: "search_duckduckgo up c query n = (found, c1)" by fastforce
  have c1: "c1 = c\<lparr> sent := sent c @ [duckduckgo_request query] \<rparr>"
    using search_duckduckgo_client[OF Cons.prems, of up query n] s by simp
  then have "\<not> is_closed c1" using Cons.prems by simp
  from Cons.IH[OF this, of "items @ found"] show ?case
    using s c1 by simp
qed

text \<open>
  Claim C10. In \<^verbatim>\<open>WebSearchIndexer.fetch_content\<close> the discovery feeds are fetched with the
  client that the \<^verbatim>\<open>async with\<close> block has already closed: every request of
  \<^verbatim>\<open>_fetch_discovery_feeds\<close> raises and is swallowed, the feeds contribute no record and
  no request, and the result is the DuckDuckGo records cut to the limit.
\<close>

theorem discovery_feeds_contribute_nothing:
  "(is_closed c \<longrightarrow> fetch_discovery_feeds up c n = ([], c))
   \<and> websearch_fetch_content up since limit =
       (py_slice_to
          (fst (search_loop up (limit div 5) (take 5 SEARCH_QUERIES) ([], new_client))) limit,
        map duckduckgo_request (take 5 SEARCH_QUERIES))"
proof (intro conjI impI)
  assume "is_closed c"
  then show "fetch_discovery_feeds up c n = ([], c)" by (rule fetch_discovery_feeds_closed)
next
  obtain items c1 where s: "search_loop up (limit div 5) (take 5 SEARCH_QUERIES) ([], new_client)
      = (items, c1)" by fastforce
  have op: "\<not> is_closed new_client" by (simp add: new_client_def)
  have c1: "sent c1 = map duckduckgo_request (take 5 SEARCH_QUERIES)"
    using search_loop_client[OF op, of up "limit div 5" "take 5 SEARCH_QUERIES" "[]"] s
    by (simp add: new_client_def)
  have closed: "is_closed (c1\<lparr> is_closed := True \<rparr>)" by simp
  show "websearch_fetch_content up since limit =
       (py_slice_to
          (fst (search_loop up (limit div 5) (take 5 SEARCH_QUERIES) ([], new_client))) limit,
        map duckduckgo_request (take 5 SEARCH_QUERIES))"
    using s c1 by (simp add: websearch_fetch_content_def fetch_discovery_feeds_closed[OF closed])
qed

theorem discovery_feeds_contribute_nothing_witness:
  "is_closed (new_client\<lparr> is_closed := True \<rparr>)
   \<and> fetch_discovery_feeds feed_network (new_client\<lparr> is_closed := True \<rparr>) 5 =
       ([], new_client\<lparr> is_closed := True \<rparr>)
   \<and> length (fst (fetch_discovery_feeds feed_network new_client 5)) = 2
   \<and> websearch_fetch_content feed_network None 10 =
       ([], map duckduckgo_request (take 5 SEARCH_QUERIES))"
proof -
  have a: "is_closed (new_client\<lparr> is_closed := True \<rparr>)" by simp
  have b: "length (fst (fetch_discovery_feeds feed_network new_client 5)) = 2"
    by (simp add: fetch_discovery_feeds_def discovery_feeds_def client_get_def new_client_def
        feed_network_def feed_on_200_def startswith_def has_field_def py_strip_def is_space_def
        py_slice_to_def)
  have c: "fst (search_loop feed_network (10 div 5) (take 5 SEARCH_QUERIES) ([], new_client)) = []"
    by (simp add: SEARCH_QUERIES_def search_duckduckgo_def client_get_def new_client_def
        feed_network_def duckduckgo_on_200_def)
  from discovery_feeds_contribute_nothing[of "new_client\<lparr> is_closed := True \<rparr>" feed_network 5 None 10]
    a b c
  show ?thesis by simp
qed

end
